theory Spec2Isabelle
  imports Complex_Main
begin

section \<open>Data model (types.ts)\<close>

text \<open>
  The four link lengths of the mechanism. Each is a finite double-precision value;
  a finite double is identified with the real number it denotes.
\<close>

record LinkLengths =
  frame :: real
  input :: real
  coupler :: real
  output_len :: real

datatype GrashofType =
    CRANK_ROCKER
  | DOUBLE_CRANK
  | DOUBLE_ROCKER_I
  | DOUBLE_ROCKER_II
  | CHANGE_POINT
  | INVALID

datatype LinkRole = FRAME | INPUT | COUPLER | OUTPUT

section \<open>Numbers\<close>

text \<open>
  A \<open>number\<close> of the source is a finite double, one of the two infinities, or NaN.
  Zero carries no sign.
\<close>

datatype number = Finite real | PosInfinity | NegInfinity | NaN

subsection \<open>Rounding to double precision\<close>

text \<open>
  IEEE 754 binary64, round to nearest, ties to even. \<open>rne\<close> rounds a real to the
  nearest integer, \<open>bexp\<close> is the binary exponent of a value (that of the least normal
  number for the subnormal range), \<open>ulp\<close> the spacing of the doubles around it.
  \<open>round_real\<close> is the rounded value while the exponent is unbounded, and \<open>fl\<close>
  the result of an operation whose exact value is \<open>x\<close>: an infinity when the rounded
  value reaches \<open>2 ^ 1024\<close>.
\<close>

definition rne :: "real \<Rightarrow> int" where
  "rne m =
     (let f = \<lfloor>m\<rfloor>; d = m - of_int f
      in if d < 1 / 2 then f
         else if 1 / 2 < d then f + 1
         else if even f then f else f + 1)"

definition bexp :: "real \<Rightarrow> int" where
  "bexp x = max \<lfloor>log 2 \<bar>x\<bar>\<rfloor> (- 1022)"

definition ulp :: "real \<Rightarrow> real" where
  "ulp x = 2 powi (bexp x - 52)"

definition round_real :: "real \<Rightarrow> real" where
  "round_real x = (if x = 0 then 0 else of_int (rne (x / ulp x)) * ulp x)"

definition fl :: "real \<Rightarrow> number" where
  "fl x =
     (let r = round_real x
      in if 2 ^ 1024 \<le> r then PosInfinity
         else if r \<le> - (2 ^ 1024) then NegInfinity
         else Finite r)"

subsection \<open>Arithmetic and comparison\<close>

text \<open>
  The operators of the source on numbers. Each takes the rounding \<open>rnd\<close> that is
  applied to the exact result of two finite operands; the special values follow
  IEEE 754.
\<close>

fun is_neg :: "number \<Rightarrow> bool" where
  "is_neg (Finite x) = (x < 0)"
| "is_neg NegInfinity = True"
| "is_neg x = False"

fun num_neg :: "number \<Rightarrow> number" where
  "num_neg (Finite x) = Finite (- x)"
| "num_neg PosInfinity = NegInfinity"
| "num_neg NegInfinity = PosInfinity"
| "num_neg NaN = NaN"

fun num_add :: "(real \<Rightarrow> number) \<Rightarrow> number \<Rightarrow> number \<Rightarrow> number" where
  "num_add rnd (Finite x) (Finite y) = rnd (x + y)"
| "num_add rnd NaN y = NaN"
| "num_add rnd x NaN = NaN"
| "num_add rnd PosInfinity NegInfinity = NaN"
| "num_add rnd NegInfinity PosInfinity = NaN"
| "num_add rnd PosInfinity y = PosInfinity"
| "num_add rnd x PosInfinity = PosInfinity"
| "num_add rnd NegInfinity y = NegInfinity"
| "num_add rnd x NegInfinity = NegInfinity"

definition num_sub :: "(real \<Rightarrow> number) \<Rightarrow> number \<Rightarrow> number \<Rightarrow> number" where
  "num_sub rnd x y = num_add rnd x (num_neg y)"

fun num_mul :: "(real \<Rightarrow> number) \<Rightarrow> number \<Rightarrow> number \<Rightarrow> number" where
  "num_mul rnd (Finite x) (Finite y) = rnd (x * y)"
| "num_mul rnd NaN y = NaN"
| "num_mul rnd x NaN = NaN"
| "num_mul rnd x y =
     (if x = Finite 0 \<or> y = Finite 0 then NaN
      else if is_neg x = is_neg y then PosInfinity else NegInfinity)"

fun num_div :: "(real \<Rightarrow> number) \<Rightarrow> number \<Rightarrow> number \<Rightarrow> number" where
  "num_div rnd (Finite x) (Finite y) =
     (if y \<noteq> 0 then rnd (x / y)
      else if x = 0 then NaN
      else if 0 < x then PosInfinity else NegInfinity)"
| "num_div rnd NaN y = NaN"
| "num_div rnd x NaN = NaN"
| "num_div rnd (Finite x) y = Finite 0"
| "num_div rnd x (Finite y) = (if is_neg x = (y < 0) then PosInfinity else NegInfinity)"
| "num_div rnd x y = NaN"

text \<open>\<open>x < y\<close> and \<open>x <= y\<close>; a comparison with NaN is false.\<close>

fun num_less :: "number \<Rightarrow> number \<Rightarrow> bool" where
  "num_less (Finite x) (Finite y) = (x < y)"
| "num_less NaN y = False"
| "num_less x NaN = False"
| "num_less x NegInfinity = False"
| "num_less PosInfinity y = False"
| "num_less x y = True"

fun num_le :: "number \<Rightarrow> number \<Rightarrow> bool" where
  "num_le (Finite x) (Finite y) = (x \<le> y)"
| "num_le NaN y = False"
| "num_le x NaN = False"
| "num_le NegInfinity y = True"
| "num_le x PosInfinity = True"
| "num_le x y = False"

fun Math_abs :: "number \<Rightarrow> number" where
  "Math_abs (Finite x) = Finite \<bar>x\<bar>"
| "Math_abs NaN = NaN"
| "Math_abs x = PosInfinity"

text \<open>\<open>Math.max\<close> and \<open>Math.min\<close>: NaN if either argument is NaN.\<close>

fun Math_max :: "number \<Rightarrow> number \<Rightarrow> number" where
  "Math_max NaN y = NaN"
| "Math_max x NaN = NaN"
| "Math_max x y = (if num_less x y then y else x)"

fun Math_min :: "number \<Rightarrow> number \<Rightarrow> number" where
  "Math_min NaN y = NaN"
| "Math_min x NaN = NaN"
| "Math_min x y = (if num_less y x then y else x)"

subsection \<open>The transcendental functions\<close>

text \<open>
  ECMAScript leaves the values of \<open>Math.cos\<close>, \<open>Math.sin\<close>, \<open>Math.sqrt\<close>,
  \<open>Math.pow\<close>, \<open>Math.acos\<close> and \<open>Math.atan2\<close> on finite arguments to the
  implementation and fixes their values at the special arguments. A \<open>mathlib\<close> holds an
  implementation's values on finite arguments (for \<open>Math.atan2\<close> also its values at
  infinite arguments, approximations of multiples of \<open>\<pi> / 4\<close>); \<open>lib_pow2 x\<close> is
  \<open>Math.pow(x, 2)\<close>, which may overflow.
\<close>

record mathlib =
  lib_cos :: "real \<Rightarrow> real"
  lib_sin :: "real \<Rightarrow> real"
  lib_sqrt :: "real \<Rightarrow> real"
  lib_pow2 :: "real \<Rightarrow> number"
  lib_acos :: "real \<Rightarrow> real"
  lib_atan2 :: "real \<Rightarrow> real \<Rightarrow> real"
  lib_atan2_inf :: "number \<Rightarrow> number \<Rightarrow> real"

text \<open>
  The arithmetic in which the solver is evaluated: the double arithmetic of the
  program over a given library, or the exact arithmetic of the reals, in which no result
  is rounded and every function is the mathematical one.
\<close>

datatype arith = Exact | Double mathlib

text \<open>The angle of the point \<open>(x, y)\<close> in \<open>(-\<pi>, \<pi>]\<close>, and \<open>0\<close> at the origin.\<close>

definition atan2_exact :: "real \<Rightarrow> real \<Rightarrow> real" where
  "atan2_exact y x =
     (if 0 < x then arctan (y / x)
      else if x < 0 then (if 0 \<le> y then arctan (y / x) + pi else arctan (y / x) - pi)
      else if 0 < y then pi / 2
      else if y < 0 then - (pi / 2)
      else 0)"

text \<open>The angle when at least one coordinate is infinite (and none is NaN).\<close>

fun atan2_limit :: "number \<Rightarrow> number \<Rightarrow> real" where
  "atan2_limit PosInfinity PosInfinity = pi / 4"
| "atan2_limit PosInfinity NegInfinity = 3 * pi / 4"
| "atan2_limit NegInfinity PosInfinity = - (pi / 4)"
| "atan2_limit NegInfinity NegInfinity = - (3 * pi / 4)"
| "atan2_limit PosInfinity x = pi / 2"
| "atan2_limit NegInfinity x = - (pi / 2)"
| "atan2_limit y PosInfinity = 0"
| "atan2_limit y x = (if is_neg y then - pi else pi)"

fun rnd :: "arith \<Rightarrow> real \<Rightarrow> number" where
  "rnd Exact x = Finite x"
| "rnd (Double M) x = fl x"

text \<open>\<open>Math.PI\<close>: the double nearest to \<open>\<pi>\<close>.\<close>

fun Math_PI :: "arith \<Rightarrow> real" where
  "Math_PI Exact = pi"
| "Math_PI (Double M) = 884279719003555 / 2 ^ 48"

fun Math_cos :: "arith \<Rightarrow> number \<Rightarrow> number" where
  "Math_cos Exact (Finite x) = Finite (cos x)"
| "Math_cos (Double M) (Finite x) = Finite (lib_cos M x)"
| "Math_cos A x = NaN"

fun Math_sin :: "arith \<Rightarrow> number \<Rightarrow> number" where
  "Math_sin Exact (Finite x) = Finite (sin x)"
| "Math_sin (Double M) (Finite x) = Finite (lib_sin M x)"
| "Math_sin A x = NaN"

fun Math_sqrt :: "arith \<Rightarrow> number \<Rightarrow> number" where
  "Math_sqrt Exact (Finite x) = (if x < 0 then NaN else Finite (sqrt x))"
| "Math_sqrt (Double M) (Finite x) = (if x < 0 then NaN else Finite (lib_sqrt M x))"
| "Math_sqrt A PosInfinity = PosInfinity"
| "Math_sqrt A x = NaN"

text \<open>\<open>Math.pow(x, 2)\<close>\<close>

fun Math_pow2 :: "arith \<Rightarrow> number \<Rightarrow> number" where
  "Math_pow2 Exact (Finite x) = Finite (x\<^sup>2)"
| "Math_pow2 (Double M) (Finite x) = lib_pow2 M x"
| "Math_pow2 A NaN = NaN"
| "Math_pow2 A x = PosInfinity"

text \<open>\<open>Math.acos\<close> is NaN outside \<open>[-1, 1]\<close> and exactly \<open>0\<close> at \<open>1\<close>.\<close>

fun Math_acos :: "arith \<Rightarrow> number \<Rightarrow> number" where
  "Math_acos Exact (Finite x) =
     (if x < -1 \<or> 1 < x then NaN else Finite (arccos x))"
| "Math_acos (Double M) (Finite x) =
     (if x < -1 \<or> 1 < x then NaN else if x = 1 then Finite 0 else Finite (lib_acos M x))"
| "Math_acos A x = NaN"

fun Math_atan2 :: "arith \<Rightarrow> number \<Rightarrow> number \<Rightarrow> number" where
  "Math_atan2 Exact (Finite y) (Finite x) = Finite (atan2_exact y x)"
| "Math_atan2 (Double M) (Finite y) (Finite x) = Finite (lib_atan2 M y x)"
| "Math_atan2 A NaN x = NaN"
| "Math_atan2 A y NaN = NaN"
| "Math_atan2 Exact y x = Finite (atan2_limit y x)"
| "Math_atan2 (Double M) y x = Finite (lib_atan2_inf M y x)"

text \<open>
  A library whose every value is the correctly rounded one. It serves where a statement
  needs a definite library.
\<close>

definition reference_lib :: mathlib where
  "reference_lib =
     \<lparr>lib_cos = (\<lambda>x. round_real (cos x)),
      lib_sin = (\<lambda>x. round_real (sin x)),
      lib_sqrt = (\<lambda>x. round_real (sqrt x)),
      lib_pow2 = (\<lambda>x. fl (x * x)),
      lib_acos = (\<lambda>x. round_real (arccos x)),
      lib_atan2 = (\<lambda>y x. round_real (atan2_exact y x)),
      lib_atan2_inf = (\<lambda>y x. round_real (atan2_limit y x))\<rparr>"

section \<open>The Grashof classifier (determineGrashof)\<close>

text \<open>An entry of the local array \<open>map\<close>: a role tagged with its length.\<close>

record LinkItem =
  role :: LinkRole
  len :: real

text \<open>The value returned by \<open>determineGrashof\<close>.\<close>

record GrashofResult =
  type :: GrashofType
  shortest :: LinkRole
  longest :: LinkRole

text \<open>The one exception the function could raise: reading \<open>len\<close> of \<open>undefined\<close>.\<close>

datatype error = TypeError

definition map_items :: "LinkLengths \<Rightarrow> LinkItem list" where
  "map_items lengths =
     [\<lparr>role = FRAME, len = frame lengths\<rparr>,
      \<lparr>role = INPUT, len = input lengths\<rparr>,
      \<lparr>role = COUPLER, len = coupler lengths\<rparr>,
      \<lparr>role = OUTPUT, len = output_len lengths\<rparr>]"

text \<open>
  One iteration of the \<open>for (const item of map)\<close> loop; the state is the pair of the
  local variables \<open>shortest\<close> and \<open>longest\<close>. Both comparisons are strict.
\<close>

definition scan_step :: "LinkItem \<Rightarrow> LinkItem \<times> LinkItem \<Rightarrow> LinkItem \<times> LinkItem" where
  "scan_step item st =
     (let sh = (if len item < len (fst st) then item else fst st);
          lo = (if len item > len (snd st) then item else snd st)
      in (sh, lo))"

text \<open>
  The whole loop, started as the source does with \<open>map[0]\<close> in both variables. On an
  empty array \<open>map[0]\<close> is \<open>undefined\<close>, and the read of \<open>shortest.len\<close> after the loop
  throws.
\<close>

definition scan_items :: "LinkItem list \<Rightarrow> error + LinkItem \<times> LinkItem" where
  "scan_items m =
     (case m of
        [] \<Rightarrow> Inl TypeError
      | first # rest \<Rightarrow> Inr (fold scan_step m (first, first)))"

text \<open>\<open>map.reduce((acc, curr) => acc + curr.len, 0)\<close>\<close>

definition totalSum :: "LinkItem list \<Rightarrow> number" where
  "totalSum m = fold (\<lambda>curr acc. num_add fl acc (Finite (len curr))) m (Finite 0)"

text \<open>The double that the literal \<open>0.01\<close> denotes.\<close>

definition threshold :: real where
  "threshold = 5764607523034235 / 2 ^ 59"

definition determineGrashof :: "LinkLengths \<Rightarrow> error + GrashofResult" where
  "determineGrashof lengths =
     (let m = map_items lengths
      in case scan_items m of
           Inl e \<Rightarrow> Inl e
         | Inr (sh, lo) \<Rightarrow>
             (let S = Finite (len sh);
                  L = Finite (len lo);
                  PQ = num_sub fl (num_sub fl (totalSum m) S) L
              in if num_less (num_add fl S PQ) L
                 then Inr \<lparr>type = INVALID, shortest = role sh, longest = role lo\<rparr>
                 else if num_less (Math_abs (num_sub fl (num_add fl S L) PQ)) (Finite threshold)
                 then Inr \<lparr>type = CHANGE_POINT, shortest = role sh, longest = role lo\<rparr>
                 else if num_less (num_add fl S L) PQ
                 then (if role sh = FRAME
                       then Inr \<lparr>type = DOUBLE_CRANK, shortest = role sh, longest = role lo\<rparr>
                       else if role sh = INPUT \<or> role sh = OUTPUT
                       then Inr \<lparr>type = CRANK_ROCKER, shortest = role sh, longest = role lo\<rparr>
                       else if role sh = COUPLER
                       then Inr \<lparr>type = DOUBLE_ROCKER_I, shortest = role sh, longest = role lo\<rparr>
                       else Inr \<lparr>type = DOUBLE_ROCKER_II, shortest = role sh,
                                  longest = role lo\<rparr>)
                 else Inr \<lparr>type = DOUBLE_ROCKER_II, shortest = role sh, longest = role lo\<rparr>))"

section \<open>The position solver (calculateJoints)\<close>

record JointCoordinates =
  Ax :: number
  Ay :: number
  Bx :: number
  By :: number
  Cx :: number
  Cy :: number
  Dx :: number
  Dy :: number
  isValid :: bool

text \<open>
  The local variables of \<open>calculateJoints\<close> that the properties speak of, in the
  arithmetic \<open>A\<close>: the radian angle \<open>theta\<close>, the joint \<open>B\<close>, the distance
  \<open>distBD\<close>, the quotient \<open>cosAlpha\<close> and the angle \<open>alpha\<close>.
\<close>

definition theta_of :: "arith \<Rightarrow> real \<Rightarrow> number" where
  "theta_of A thetaInput =
     num_div (rnd A) (num_mul (rnd A) (Finite thetaInput) (Finite (Math_PI A))) (Finite 180)"

definition Bx_of :: "arith \<Rightarrow> LinkLengths \<Rightarrow> real \<Rightarrow> number" where
  "Bx_of A lengths thetaInput =
     num_mul (rnd A) (Finite (input lengths)) (Math_cos A (theta_of A thetaInput))"

definition By_of :: "arith \<Rightarrow> LinkLengths \<Rightarrow> real \<Rightarrow> number" where
  "By_of A lengths thetaInput =
     num_mul (rnd A) (Finite (input lengths)) (Math_sin A (theta_of A thetaInput))"

definition distBD :: "arith \<Rightarrow> LinkLengths \<Rightarrow> real \<Rightarrow> number" where
  "distBD A lengths thetaInput =
     Math_sqrt A
       (num_add (rnd A)
          (Math_pow2 A (num_sub (rnd A) (Finite (frame lengths)) (Bx_of A lengths thetaInput)))
          (Math_pow2 A (num_sub (rnd A) (Finite 0) (By_of A lengths thetaInput))))"

definition cosAlpha_of :: "arith \<Rightarrow> LinkLengths \<Rightarrow> real \<Rightarrow> number" where
  "cosAlpha_of A lengths thetaInput =
     (let b = Finite (coupler lengths); c = Finite (output_len lengths);
          dist = distBD A lengths thetaInput
      in num_div (rnd A)
           (num_sub (rnd A)
              (num_add (rnd A) (num_mul (rnd A) c c) (num_mul (rnd A) dist dist))
              (num_mul (rnd A) b b))
           (num_mul (rnd A) (num_mul (rnd A) (Finite 2) c) dist))"

definition alpha_of :: "arith \<Rightarrow> LinkLengths \<Rightarrow> real \<Rightarrow> number" where
  "alpha_of A lengths thetaInput =
     Math_acos A (Math_min (Math_max (cosAlpha_of A lengths thetaInput) (Finite (- 1))) (Finite 1))"

definition calculateJoints :: "arith \<Rightarrow> LinkLengths \<Rightarrow> real \<Rightarrow> JointCoordinates" where
  "calculateJoints A lengths thetaInput =
     (let d = Finite (frame lengths); a = Finite (input lengths);
          b = Finite (coupler lengths); c = Finite (output_len lengths);
          ax = Finite 0; ay = Finite 0;
          dx = d; dy = Finite 0;
          bx = Bx_of A lengths thetaInput;
          by = By_of A lengths thetaInput;
          dist = distBD A lengths thetaInput
      in if num_less (num_add (rnd A) b c) dist
            \<or> num_less dist (Math_abs (num_sub (rnd A) b c))
            \<or> dist = Finite 0
         then \<lparr>Ax = ax, Ay = ay, Bx = bx, By = by,
               Cx = NaN, Cy = NaN, Dx = dx, Dy = dy, isValid = False\<rparr>
         else
           (let alpha = alpha_of A lengths thetaInput;
                angleDB = Math_atan2 A (num_sub (rnd A) by dy) (num_sub (rnd A) bx dx);
                thetaOutput = num_sub (rnd A) angleDB alpha;
                cx = num_add (rnd A) dx (num_mul (rnd A) c (Math_cos A thetaOutput));
                cy = num_add (rnd A) dy (num_mul (rnd A) c (Math_sin A thetaOutput))
            in \<lparr>Ax = ax, Ay = ay, Bx = bx, By = by,
                 Cx = cx, Cy = cy, Dx = dx, Dy = dy, isValid = True\<rparr>))"

section \<open>Vocabulary of the properties\<close>

text \<open>
  The length that a role holds, the order in which the classifier visits the roles,
  and the three quantities of the Grashof criterion as real numbers: the shortest
  length \<open>S\<close>, the longest length \<open>L\<close>, and the sum \<open>P + Q\<close> of the remaining two.
\<close>

definition link_len :: "LinkLengths \<Rightarrow> LinkRole \<Rightarrow> real" where
  "link_len lengths r =
     (case r of FRAME \<Rightarrow> frame lengths | INPUT \<Rightarrow> input lengths
      | COUPLER \<Rightarrow> coupler lengths | OUTPUT \<Rightarrow> output_len lengths)"

definition role_order :: "LinkRole list" where
  "role_order = [FRAME, INPUT, COUPLER, OUTPUT]"

definition shortest_length :: "LinkLengths \<Rightarrow> real" where
  "shortest_length lengths =
     min (min (frame lengths) (input lengths)) (min (coupler lengths) (output_len lengths))"

definition longest_length :: "LinkLengths \<Rightarrow> real" where
  "longest_length lengths =
     max (max (frame lengths) (input lengths)) (max (coupler lengths) (output_len lengths))"

definition other_two_sum :: "LinkLengths \<Rightarrow> real" where
  "other_two_sum lengths =
     frame lengths + input lengths + coupler lengths + output_len lengths
       - shortest_length lengths - longest_length lengths"

text \<open>
  The value that the local variable \<open>PQ\<close> of the classifier holds: the four lengths
  added from the left, then the shortest and the longest subtracted, each step rounded.
\<close>

definition PQ_of :: "LinkLengths \<Rightarrow> number" where
  "PQ_of lengths =
     num_sub fl
       (num_sub fl (totalSum (map_items lengths)) (Finite (shortest_length lengths)))
       (Finite (longest_length lengths))"

text \<open>
  Lengths on a dyadic grid: every length is a multiple of \<open>2 ^ - g\<close> of magnitude at
  most \<open>2 ^ 49\<close> grid steps. Integer lengths up to \<open>2 ^ 49\<close> are the case \<open>g = 0\<close>.
  On such lengths every sum and difference that the classifier forms is a double.
\<close>

definition on_grid :: "nat \<Rightarrow> real \<Rightarrow> real \<Rightarrow> bool" where
  "on_grid g B x \<longleftrightarrow> x * 2 ^ g \<in> \<int> \<and> \<bar>x * 2 ^ g\<bar> \<le> B"

definition grid_lengths :: "nat \<Rightarrow> LinkLengths \<Rightarrow> bool" where
  "grid_lengths g lengths \<longleftrightarrow>
     g \<le> 1000 \<and>
     on_grid g (2 ^ 49) (frame lengths) \<and> on_grid g (2 ^ 49) (input lengths) \<and>
     on_grid g (2 ^ 49) (coupler lengths) \<and> on_grid g (2 ^ 49) (output_len lengths)"

text \<open>
  The first role, in the order frame, input, coupler, output, that holds the least
  length, and the first one that holds the greatest length.
\<close>

definition first_shortest :: "LinkLengths \<Rightarrow> LinkRole" where
  "first_shortest L =
     (if frame L \<le> input L \<and> frame L \<le> coupler L \<and> frame L \<le> output_len L then FRAME
      else if input L \<le> coupler L \<and> input L \<le> output_len L then INPUT
      else if coupler L \<le> output_len L then COUPLER
      else OUTPUT)"

definition first_longest :: "LinkLengths \<Rightarrow> LinkRole" where
  "first_longest L =
     (if input L \<le> frame L \<and> coupler L \<le> frame L \<and> output_len L \<le> frame L then FRAME
      else if coupler L \<le> input L \<and> output_len L \<le> input L then INPUT
      else if output_len L \<le> coupler L then COUPLER
      else OUTPUT)"

text \<open>
  The joint \<open>B = (input cos \<theta>, input sin \<theta>)\<close> and its distance from
  \<open>D = (frame, 0)\<close> as real numbers, \<open>\<theta>\<close> being the angle in radians.
\<close>

definition true_Bx :: "LinkLengths \<Rightarrow> real \<Rightarrow> real" where
  "true_Bx lengths thetaInput = input lengths * cos (thetaInput * pi / 180)"

definition true_By :: "LinkLengths \<Rightarrow> real \<Rightarrow> real" where
  "true_By lengths thetaInput = input lengths * sin (thetaInput * pi / 180)"

definition true_distBD :: "LinkLengths \<Rightarrow> real \<Rightarrow> real" where
  "true_distBD lengths thetaInput =
     sqrt ((frame lengths - input lengths * cos (thetaInput * pi / 180))\<^sup>2
           + (0 - input lengths * sin (thetaInput * pi / 180))\<^sup>2)"

section \<open>Properties of the rounding\<close>

subsection \<open>Representable values and overflow\<close>

lemma rne_of_int: "rne (of_int n) = n"
  by (simp add: rne_def)

lemma rne_cases: "rne m = \<lfloor>m\<rfloor> \<or> (rne m = \<lfloor>m\<rfloor> + 1 \<and> of_int \<lfloor>m\<rfloor> < m)"
  by (auto simp add: rne_def Let_def)

lemma rne_ge: "of_int n \<le> m \<Longrightarrow> n \<le> rne m"
proof -
  assume "of_int n \<le> m"
  then have "n \<le> \<lfloor>m\<rfloor>" by (simp add: le_floor_iff)
  then show ?thesis using rne_cases [of m] by auto
qed

lemma rne_le: "m \<le> of_int n \<Longrightarrow> rne m \<le> n"
proof -
  assume a: "m \<le> of_int n"
  then have f: "\<lfloor>m\<rfloor> \<le> n" by (simp add: floor_le_iff)
  show ?thesis
    using rne_cases [of m]
  proof
    assume "rne m = \<lfloor>m\<rfloor>"
    then show ?thesis using f by simp
  next
    assume b: "rne m = \<lfloor>m\<rfloor> + 1 \<and> of_int \<lfloor>m\<rfloor> < m"
    then have "(of_int \<lfloor>m\<rfloor> :: real) < of_int n" using a by linarith
    then have "\<lfloor>m\<rfloor> < n" by simp
    then show ?thesis using b by simp
  qed
qed

lemma ulp_pos: "0 < ulp x"
  by (simp add: ulp_def)

lemma floor_log2_bounds:
  assumes "x \<noteq> 0"
  shows "2 powi \<lfloor>log 2 \<bar>x\<bar>\<rfloor> \<le> \<bar>x\<bar>" "\<bar>x\<bar> < 2 powi (\<lfloor>log 2 \<bar>x\<bar>\<rfloor> + 1)"
proof -
  have p: "0 < \<bar>x\<bar>" using assms by simp
  have "2 powr (of_int \<lfloor>log 2 \<bar>x\<bar>\<rfloor>) \<le> \<bar>x\<bar> \<and> \<bar>x\<bar> < 2 powr (of_int (\<lfloor>log 2 \<bar>x\<bar>\<rfloor> + 1))"
    using floor_log_eq_powr_iff [of "\<bar>x\<bar>" 2 "\<lfloor>log 2 \<bar>x\<bar>\<rfloor>"] p by simp
  moreover have "(2::real) powr (of_int k) = 2 powi k" for k
    by (rule powr_real_of_int') simp_all
  ultimately show "2 powi \<lfloor>log 2 \<bar>x\<bar>\<rfloor> \<le> \<bar>x\<bar>" "\<bar>x\<bar> < 2 powi (\<lfloor>log 2 \<bar>x\<bar>\<rfloor> + 1)"
    by metis+
qed

lemma powi_mono2: "i \<le> j \<Longrightarrow> (2::real) powi i \<le> 2 powi j"
  by (rule power_int_increasing) simp_all

lemma powi_less_D: "(2::real) powi i < 2 powi j \<Longrightarrow> i < j"
  using powi_mono2 [of j i] by (cases "i < j") auto

lemma bexp_less:
  assumes "x \<noteq> 0" "\<bar>x\<bar> < 2 powi k"
  shows "bexp x \<le> max (k - 1) (- 1022)"
proof -
  have "2 powi \<lfloor>log 2 \<bar>x\<bar>\<rfloor> < (2::real) powi k"
    using floor_log2_bounds(1) [OF assms(1)] assms(2) by linarith
  then have "\<lfloor>log 2 \<bar>x\<bar>\<rfloor> < k" by (rule powi_less_D)
  then show ?thesis by (simp add: bexp_def)
qed

lemma bexp_large:
  assumes "2 powi k \<le> \<bar>x\<bar>" "- 1022 \<le> k"
  shows "k \<le> bexp x" "2 powi (bexp x) \<le> \<bar>x\<bar>"
proof -
  have nz: "x \<noteq> 0" using assms(1) by (smt (verit) zero_less_power_int)
  have "2 powi k < (2::real) powi (\<lfloor>log 2 \<bar>x\<bar>\<rfloor> + 1)"
    using floor_log2_bounds(2) [OF nz] assms(1) by linarith
  then have "k < \<lfloor>log 2 \<bar>x\<bar>\<rfloor> + 1" by (rule powi_less_D)
  then have e: "bexp x = \<lfloor>log 2 \<bar>x\<bar>\<rfloor>" "k \<le> \<lfloor>log 2 \<bar>x\<bar>\<rfloor>"
    using assms(2) by (simp_all add: bexp_def)
  show "k \<le> bexp x" using e by simp
  show "2 powi (bexp x) \<le> \<bar>x\<bar>" using floor_log2_bounds(1) [OF nz] e by simp
qed

lemma round_real_large:
  assumes "2 powi k \<le> x" "- 1022 \<le> k"
  shows "2 powi k \<le> round_real x"
proof -
  have xp: "0 < x" using assms(1) by (smt (verit) zero_less_power_int)
  then have ax: "\<bar>x\<bar> = x" by simp
  have e: "k \<le> bexp x" "2 powi (bexp x) \<le> x"
    using bexp_large [of k x] assms ax by simp_all
  have "(2::real) powi 52 * 2 powi (bexp x - 52) = 2 powi (52 + (bexp x - 52))"
    by (rule power_int_add [symmetric]) simp
  then have "(2::real) powi 52 * ulp x = 2 powi (bexp x)"
    by (simp only: ulp_def) simp
  then have "2 powi 52 \<le> x / ulp x"
    using e(2) ulp_pos [of x] by (simp add: pos_le_divide_eq)
  then have "of_int (2 ^ 52) \<le> x / ulp x" by simp
  then have "2 ^ 52 \<le> rne (x / ulp x)" by (rule rne_ge)
  then have "(2::real) powi 52 \<le> of_int (rne (x / ulp x))"
    by (metis of_int_le_iff of_int_numeral of_int_power power_int_of_nat numeral_power_eq_of_nat_cancel_iff of_int_of_nat_eq power_int_numeral)
  then have "2 powi 52 * ulp x \<le> of_int (rne (x / ulp x)) * ulp x"
    using ulp_pos [of x] by simp
  then have "2 powi (bexp x) \<le> round_real x"
    using xp \<open>(2::real) powi 52 * ulp x = 2 powi (bexp x)\<close> by (simp add: round_real_def)
  then show ?thesis using powi_mono2 [OF e(1)] by linarith
qed

lemma round_real_exact:
  assumes int: "x / 2 powi j \<in> \<int>" and small: "\<bar>x\<bar> < 2 powi (j + 53)" and j: "- 1074 \<le> j"
  shows "round_real x = x"
proof (cases "x = 0")
  case True
  then show ?thesis by (simp add: round_real_def)
next
  case False
  define i where "i = bexp x - 52"
  have "bexp x \<le> max (j + 53 - 1) (- 1022)" using bexp_less [OF False small] .
  then have ij: "i \<le> j" using j by (simp add: i_def)
  have u: "ulp x = 2 powi i" by (simp add: ulp_def i_def)
  have "(2::real) powi j = 2 powi (i + (j - i))" by simp
  also have "\<dots> = 2 powi i * 2 powi (j - i)" by (rule power_int_add) simp
  finally have split: "(2::real) powi j = 2 powi i * 2 powi (j - i)" .
  have "(2::real) powi (j - i) = 2 ^ nat (j - i)"
    using ij by (simp add: power_int_def)
  then have pint: "(2::real) powi (j - i) \<in> \<int>" by simp
  have "x / 2 powi i = (x / 2 powi j) * 2 powi (j - i)"
    by (simp add: split)
  moreover have "(x / 2 powi j) * 2 powi (j - i) \<in> \<int>"
    using int pint by (rule Ints_mult)
  ultimately have "x / 2 powi i \<in> \<int>" by (simp only:)
  then obtain n where n: "x / 2 powi i = of_int n" by (auto elim: Ints_cases)
  then have "round_real x = of_int n * 2 powi i"
    using False by (simp add: round_real_def u rne_of_int)
  also have "\<dots> = x" using n by (simp add: field_simps)
  finally show ?thesis .
qed

lemma fl_exact:
  assumes "x / 2 powi j \<in> \<int>" "\<bar>x\<bar> < 2 powi (j + 53)" "- 1074 \<le> j" "\<bar>x\<bar> < 2 ^ 1024"
  shows "fl x = Finite x"
proof -
  have "\<not> 2 ^ 1024 \<le> x" "\<not> x \<le> - (2 ^ 1024)" using assms(4) by linarith+
  then show ?thesis
    unfolding fl_def Let_def round_real_exact [OF assms(1-3)] by (simp only: if_False)
qed

lemma fl_int:
  assumes "x \<in> \<int>" "\<bar>x\<bar> < 2 ^ 53"
  shows "fl x = Finite x"
proof -
  have "\<bar>x\<bar> < 2 ^ 1024"
    using assms(2) power_strict_increasing [of 53 1024 "2::real"] by linarith
  then show ?thesis using fl_exact [of x 0] assms by simp
qed

lemma fl_overflow:
  assumes "2 ^ 1024 \<le> x"
  shows "fl x = PosInfinity"
proof -
  have "(2::real) powi 1024 \<le> x" using assms by simp
  then have "(2::real) powi 1024 \<le> round_real x" by (rule round_real_large) simp
  then show ?thesis by (simp add: fl_def)
qed

lemma fl_not_NaN: "fl x \<noteq> NaN"
  by (simp add: fl_def Let_def)

text \<open>
  The rounded value of \<open>x\<close> once its binary exponent is known.
\<close>

lemma bexp_eq:
  assumes "2 powi e \<le> \<bar>x\<bar>" "\<bar>x\<bar> < 2 powi (e + 1)" "- 1022 \<le> e"
  shows "bexp x = e"
proof -
  have nz: "x \<noteq> 0" using assms(1) by (smt (verit) zero_less_power_int)
  have "e \<le> bexp x" using bexp_large(1) [OF assms(1,3)] .
  moreover have "bexp x \<le> max (e + 1 - 1) (- 1022)" using bexp_less [OF nz assms(2)] .
  ultimately show ?thesis using assms(3) by simp
qed

lemma fl_eval:
  assumes "2 powi e \<le> \<bar>x\<bar>" "\<bar>x\<bar> < 2 powi (e + 1)" "- 1022 \<le> e"
    and "\<bar>of_int (rne (x / 2 powi (e - 52))) * 2 powi (e - 52)\<bar> < (2::real) ^ 1024"
  shows "fl x = Finite (of_int (rne (x / 2 powi (e - 52))) * 2 powi (e - 52))"
proof -
  have nz: "x \<noteq> 0" using assms(1) by (smt (verit) zero_less_power_int)
  have "round_real x = of_int (rne (x / 2 powi (e - 52))) * 2 powi (e - 52)"
    using nz by (simp add: round_real_def ulp_def bexp_eq [OF assms(1-3)])
  moreover have "\<not> (2::real) ^ 1024 \<le> of_int (rne (x / 2 powi (e - 52))) * 2 powi (e - 52)"
    "\<not> of_int (rne (x / 2 powi (e - 52))) * 2 powi (e - 52) \<le> - ((2::real) ^ 1024)"
    using assms(4) by linarith+
  ultimately show ?thesis by (simp add: fl_def Let_def)
qed

lemma fl_zero: "fl 0 = Finite 0"
  by (simp add: fl_int)

lemma rnd_not_NaN: "rnd A x \<noteq> NaN"
  by (cases A) (simp_all add: fl_not_NaN)

subsection \<open>Values on a dyadic grid\<close>

lemma on_grid_add: "on_grid g B1 x \<Longrightarrow> on_grid g B2 y \<Longrightarrow> on_grid g (B1 + B2) (x + y)"
  unfolding on_grid_def by (auto simp add: distrib_right intro: Ints_add)

lemma on_grid_diff: "on_grid g B1 x \<Longrightarrow> on_grid g B2 y \<Longrightarrow> on_grid g (B1 + B2) (x - y)"
  unfolding on_grid_def by (auto simp add: left_diff_distrib intro: Ints_diff)

lemma on_grid_min: "on_grid g B x \<Longrightarrow> on_grid g B y \<Longrightarrow> on_grid g B (min x y)"
  by (simp add: min_def)

lemma on_grid_max: "on_grid g B x \<Longrightarrow> on_grid g B y \<Longrightarrow> on_grid g B (max x y)"
  by (simp add: max_def)

lemma on_grid_zero: "on_grid g 0 0"
  by (simp add: on_grid_def)

lemma fl_on_grid:
  assumes "on_grid g B x" "B < 2 ^ 53" "g \<le> 1074"
  shows "fl x = Finite x"
proof (rule fl_exact [where j = "- int g"])
  have p: "(2::real) powi (- int g) = 1 / 2 ^ g"
    by (simp add: power_int_minus field_simps)
  show "x / 2 powi (- int g) \<in> \<int>" using assms(1) by (simp add: p on_grid_def)
  have b: "\<bar>x\<bar> * 2 ^ g < 2 ^ 53" using assms(1,2) by (simp add: on_grid_def abs_mult)
  have "(2::real) powi (- int g + 53) = 2 powi (- int g) * 2 powi 53"
    by (rule power_int_add) simp
  also have "\<dots> = 2 ^ 53 / 2 ^ g" by (simp only: p) simp
  finally have q: "(2::real) powi (- int g + 53) = 2 ^ 53 / 2 ^ g" .
  show "\<bar>x\<bar> < 2 powi (- int g + 53)"
    unfolding q using b by (simp add: pos_less_divide_eq)
  show "- 1074 \<le> - int g" using assms(3) by simp
  have "(1::real) \<le> 2 ^ g" by simp
  then have "\<bar>x\<bar> * 1 \<le> \<bar>x\<bar> * 2 ^ g" by (intro mult_left_mono) simp_all
  then have "\<bar>x\<bar> < 2 ^ 53" using b by simp
  then show "\<bar>x\<bar> < 2 ^ 1024"
    using power_strict_increasing [of 53 1024 "2::real"] by linarith
qed

subsection \<open>Rounded values of particular sums and products\<close>

text \<open>
  The literal \<open>0.01\<close> denotes \<open>threshold\<close>, and a value half-way between two
  doubles goes to the one whose last bit is zero.
\<close>

lemma threshold_is_rounded: "fl (1 / 100) = Finite threshold"
  using fl_eval [of "- 7" "1 / 100"] by (simp add: rne_def Let_def threshold_def)

lemma fl_tie_down: "fl (2 ^ 53 + 1) = Finite (2 ^ 53)"
  using fl_eval [of 53 "2 ^ 53 + 1"] by (simp add: rne_def Let_def)

lemma fl_tie_up: "fl (2 ^ 53 + 3) = Finite (2 ^ 53 + 4)"
  using fl_eval [of 53 "2 ^ 53 + 3"] by (simp add: rne_def Let_def)

text \<open>
  The operations of the solver at \<open>coupler = 1000\<close>,
  \<open>output = 24 - 2 ^ - 44\<close> and \<open>distBD = 1024\<close>.
\<close>

lemma fl_ex_sum: "fl (1000 + (24 - 1 / 2 ^ 44)) = Finite 1024"
  using fl_eval [of 9 "1000 + (24 - 1 / 2 ^ 44)"] by (simp add: rne_def Let_def)

lemma fl_ex_diff: "fl (1000 - (24 - 1 / 2 ^ 44)) = Finite 976"
  using fl_eval [of 9 "1000 - (24 - 1 / 2 ^ 44)"] by (simp add: rne_def Let_def)

lemma fl_ex_square: "fl ((24 - 1 / 2 ^ 44) * (24 - 1 / 2 ^ 44)) = Finite (576 - 3 / 2 ^ 40)"
  using fl_eval [of 9 "(24 - 1 / 2 ^ 44) * (24 - 1 / 2 ^ 44)"] by (simp add: rne_def Let_def)

lemma fl_ex_sum_squares: "fl (576 - 3 / 2 ^ 40 + 1048576) = Finite 1049152"
  using fl_eval [of 20 "576 - 3 / 2 ^ 40 + 1048576"] by (simp add: rne_def Let_def)

lemma fl_ex_double: "fl (2 * (24 - 1 / 2 ^ 44)) = Finite (48 - 1 / 2 ^ 43)"
  using fl_exact [of "48 - 1 / 2 ^ 43" "- 43"] by simp

lemma fl_ex_product: "fl ((48 - 1 / 2 ^ 43) * 1024) = Finite (49152 - 1 / 2 ^ 33)"
  using fl_exact [of "49152 - 1 / 2 ^ 33" "- 33"] by simp

lemma fl_ex_quotient: "fl (49152 / (49152 - 1 / 2 ^ 33)) = Finite (1 + 11 / 2 ^ 52)"
  using fl_eval [of 0 "49152 / (49152 - 1 / 2 ^ 33)"] by (simp add: rne_def Let_def)

section \<open>Properties of the classifier\<close>

subsection \<open>The scan and the guards\<close>

lemma scan_items_map_items:
  "scan_items (map_items L) =
     Inr (\<lparr>role = first_shortest L, len = shortest_length L\<rparr>,
          \<lparr>role = first_longest L, len = longest_length L\<rparr>)"
  by (simp add: scan_items_def scan_step_def map_items_def Let_def first_shortest_def
      first_longest_def shortest_length_def longest_length_def min_def max_def)

text \<open>
  The result of the classifier over the three guards as the program evaluates them.
  The three role tests inside the Grashof branch cover the four roles.
\<close>

lemma determineGrashof_result:
  "determineGrashof L =
     Inr \<lparr>type =
            (if num_less (num_add fl (Finite (shortest_length L)) (PQ_of L))
                  (Finite (longest_length L))
             then INVALID
             else if num_less
                  (Math_abs (num_sub fl
                     (num_add fl (Finite (shortest_length L)) (Finite (longest_length L)))
                     (PQ_of L)))
                  (Finite threshold)
             then CHANGE_POINT
             else if num_less
                  (num_add fl (Finite (shortest_length L)) (Finite (longest_length L)))
                  (PQ_of L)
             then (case first_shortest L of
                     FRAME \<Rightarrow> DOUBLE_CRANK | INPUT \<Rightarrow> CRANK_ROCKER
                   | OUTPUT \<Rightarrow> CRANK_ROCKER | COUPLER \<Rightarrow> DOUBLE_ROCKER_I)
             else DOUBLE_ROCKER_II),
          shortest = first_shortest L, longest = first_longest L\<rparr>"
  by (cases "first_shortest L")
    (simp_all add: determineGrashof_def scan_items_map_items Let_def PQ_of_def)

lemma totalSum_map_items:
  "totalSum (map_items L) =
     num_add fl (num_add fl (num_add fl (num_add fl (Finite 0) (Finite (frame L)))
       (Finite (input L))) (Finite (coupler L))) (Finite (output_len L))"
  by (simp add: totalSum_def map_items_def)

subsection \<open>Lengths on a grid\<close>

text \<open>
  No multiple of \<open>2 ^ - g\<close> with at most \<open>2 ^ 52\<close> grid steps lies between
  \<open>1 / 100\<close> and the double \<open>threshold\<close>.
\<close>

lemma threshold_gt: "1 / 100 < threshold"
  by (simp add: threshold_def)

lemma threshold_on_grid:
  assumes x: "on_grid g (2 ^ 52) x"
  shows "\<bar>x\<bar> < threshold \<longleftrightarrow> \<bar>x\<bar> < 1 / 100"
proof
  assume "\<bar>x\<bar> < 1 / 100"
  then show "\<bar>x\<bar> < threshold" using threshold_gt by linarith
next
  assume lt: "\<bar>x\<bar> < threshold"
  from x obtain k :: int where k: "x * 2 ^ g = of_int k"
    by (auto simp add: on_grid_def elim: Ints_cases)
  have kb: "\<bar>k\<bar> \<le> 2 ^ 52"
  proof -
    have "\<bar>(of_int k :: real)\<bar> \<le> 2 ^ 52" using x k by (simp add: on_grid_def)
    then have "(of_int \<bar>k\<bar> :: real) \<le> of_int (2 ^ 52)" by simp
    then show ?thesis by (simp only: of_int_le_iff)
  qed
  have "\<bar>x\<bar> * 2 ^ g = \<bar>x * 2 ^ g\<bar>" by (simp add: abs_mult)
  then have ax: "\<bar>x\<bar> * 2 ^ g = of_int \<bar>k\<bar>" by (simp only: k of_int_abs)
  show "\<bar>x\<bar> < 1 / 100"
  proof (rule ccontr)
    assume "\<not> \<bar>x\<bar> < 1 / 100"
    then have ge: "1 / 100 \<le> \<bar>x\<bar>" by simp
    show False
    proof (cases "g \<le> 59")
      case True
      define n :: int where "n = \<bar>k\<bar> * 2 ^ (59 - g)"
      have p: "(2::real) ^ 59 = 2 ^ g * 2 ^ (59 - g)"
        using True by (simp add: power_add [symmetric])
      have "\<bar>x\<bar> * 2 ^ 59 = (\<bar>x\<bar> * 2 ^ g) * 2 ^ (59 - g)"
        by (simp only: p mult.assoc)
      also have "\<dots> = of_int n" by (simp only: ax n_def of_int_mult of_int_power of_int_numeral)
      finally have xn: "\<bar>x\<bar> * 2 ^ 59 = of_int n" .
      have "\<bar>x\<bar> * 2 ^ 59 < threshold * 2 ^ 59" using lt by simp
      then have "(of_int n :: real) < of_int 5764607523034235"
        using xn by (simp add: threshold_def)
      then have u: "n < 5764607523034235" by (simp only: of_int_less_iff)
      have "1 / 100 * 2 ^ 59 \<le> \<bar>x\<bar> * 2 ^ 59" using ge by simp
      then have "(of_int (2 ^ 59) :: real) \<le> of_int (n * 100)" using xn by simp
      then have "2 ^ 59 \<le> n * 100" by (simp only: of_int_le_iff)
      then show False using u by simp
    next
      case False
      then have "(2::real) ^ 60 \<le> 2 ^ g" by (intro power_increasing) simp_all
      moreover have "1 / 100 * 2 ^ g \<le> \<bar>x\<bar> * 2 ^ g" using ge by simp
      ultimately have "1 / 100 * (2::real) ^ 60 \<le> of_int \<bar>k\<bar>" using ax by simp
      moreover have "(of_int \<bar>k\<bar> :: real) \<le> of_int (2 ^ 52)" using kb by (simp only: of_int_le_iff)
      ultimately show False by simp
    qed
  qed
qed

lemma grid_sums:
  assumes "grid_lengths g L"
  shows "totalSum (map_items L) = Finite (frame L + input L + coupler L + output_len L)"
    and "PQ_of L = Finite (other_two_sum L)"
    and "num_add fl (Finite (shortest_length L)) (PQ_of L)
           = Finite (shortest_length L + other_two_sum L)"
    and "num_add fl (Finite (shortest_length L)) (Finite (longest_length L))
           = Finite (shortest_length L + longest_length L)"
    and "num_sub fl (num_add fl (Finite (shortest_length L)) (Finite (longest_length L)))
             (PQ_of L)
           = Finite (shortest_length L + longest_length L - other_two_sum L)"
    and "on_grid g (2 ^ 52) (shortest_length L + longest_length L - other_two_sum L)"
proof -
  define B :: real where "B = 2 ^ 49"
  have g: "g \<le> 1074" using assms by (simp add: grid_lengths_def)
  have f: "on_grid g B (frame L)" and i: "on_grid g B (input L)"
    and c: "on_grid g B (coupler L)" and p: "on_grid g B (output_len L)"
    using assms by (simp_all add: grid_lengths_def B_def)
  have s: "on_grid g B (shortest_length L)"
    unfolding shortest_length_def by (intro on_grid_min f i c p)
  have l: "on_grid g B (longest_length L)"
    unfolding longest_length_def by (intro on_grid_max f i c p)
  have small: "k * B < 2 ^ 53" if "k \<le> 8" for k :: real
  proof -
    have "k * B \<le> 8 * B" using that by (simp add: B_def)
    then show ?thesis by (simp add: B_def)
  qed
  have ex: "fl x = Finite x" if "on_grid g (k * B) x" "k \<le> 8" for x k
    using fl_on_grid [OF that(1) small [OF that(2)] g] .
  have t1: "on_grid g (1 * B) (0 + frame L)" using f by simp
  have t2: "on_grid g (2 * B) (0 + frame L + input L)"
    using on_grid_add [OF t1 i] by simp
  have t3: "on_grid g (3 * B) (0 + frame L + input L + coupler L)"
    using on_grid_add [OF t2 c] by simp
  have t4: "on_grid g (4 * B) (0 + frame L + input L + coupler L + output_len L)"
    using on_grid_add [OF t3 p] by simp
  show tot: "totalSum (map_items L) = Finite (frame L + input L + coupler L + output_len L)"
    using ex [OF t1] ex [OF t2] ex [OF t3] ex [OF t4] by (simp add: totalSum_map_items)
  have t5: "on_grid g (5 * B)
      (0 + frame L + input L + coupler L + output_len L - shortest_length L)"
    using on_grid_diff [OF t4 s] by simp
  have t6: "on_grid g (6 * B) (other_two_sum L)"
    using on_grid_diff [OF t5 l] by (simp add: other_two_sum_def)
  show pq: "PQ_of L = Finite (other_two_sum L)"
    using ex [OF t5] ex [OF t6] by (simp add: PQ_of_def tot num_sub_def other_two_sum_def)
  have t7: "on_grid g (7 * B) (shortest_length L + other_two_sum L)"
    using on_grid_add [OF s t6] by simp
  show "num_add fl (Finite (shortest_length L)) (PQ_of L)
           = Finite (shortest_length L + other_two_sum L)"
    using ex [OF t7] by (simp add: pq)
  have t8: "on_grid g (2 * B) (shortest_length L + longest_length L)"
    using on_grid_add [OF s l] by simp
  show sl: "num_add fl (Finite (shortest_length L)) (Finite (longest_length L))
           = Finite (shortest_length L + longest_length L)"
    using ex [OF t8] by simp
  have t9: "on_grid g (8 * B) (shortest_length L + longest_length L - other_two_sum L)"
    using on_grid_diff [OF t8 t6] by simp
  show "num_sub fl (num_add fl (Finite (shortest_length L)) (Finite (longest_length L)))
             (PQ_of L)
           = Finite (shortest_length L + longest_length L - other_two_sum L)"
    using ex [OF t9] ex [OF t8] by (simp add: pq num_sub_def)
  show "on_grid g (2 ^ 52) (shortest_length L + longest_length L - other_two_sum L)"
    using t9 by (simp add: B_def)
qed

text \<open>On grid lengths the classifier decides on the exact quantities.\<close>

lemma determineGrashof_on_grid:
  assumes "grid_lengths g L"
  shows "determineGrashof L =
     Inr \<lparr>type =
            (if shortest_length L + other_two_sum L < longest_length L then INVALID
             else if \<bar>shortest_length L + longest_length L - other_two_sum L\<bar> < 1 / 100
             then CHANGE_POINT
             else if shortest_length L + longest_length L < other_two_sum L
             then (case first_shortest L of
                     FRAME \<Rightarrow> DOUBLE_CRANK | INPUT \<Rightarrow> CRANK_ROCKER
                   | OUTPUT \<Rightarrow> CRANK_ROCKER | COUPLER \<Rightarrow> DOUBLE_ROCKER_I)
             else DOUBLE_ROCKER_II),
          shortest = first_shortest L, longest = first_longest L\<rparr>"
proof -
  note gs = grid_sums [OF assms]
  have c1: "num_less (num_add fl (Finite (shortest_length L)) (PQ_of L))
        (Finite (longest_length L))
      \<longleftrightarrow> shortest_length L + other_two_sum L < longest_length L"
    by (simp only: gs(3) num_less.simps)
  have c2: "num_less
        (Math_abs (num_sub fl
           (num_add fl (Finite (shortest_length L)) (Finite (longest_length L))) (PQ_of L)))
        (Finite threshold)
      \<longleftrightarrow> \<bar>shortest_length L + longest_length L - other_two_sum L\<bar> < 1 / 100"
    by (simp only: gs(5) Math_abs.simps num_less.simps threshold_on_grid [OF gs(6)])
  have c3: "num_less
        (num_add fl (Finite (shortest_length L)) (Finite (longest_length L))) (PQ_of L)
      \<longleftrightarrow> shortest_length L + longest_length L < other_two_sum L"
    by (simp only: gs(4) gs(2) num_less.simps)
  show ?thesis by (simp only: determineGrashof_result c1 c2 c3)
qed

text \<open>
  Under \<open>S + L < P + Q\<close> the least length is held by one role only: were it held
  twice, \<open>P\<close> would be \<open>S\<close> and \<open>Q \<le> L\<close> would give \<open>P + Q \<le> S + L\<close>.
\<close>

lemma grashof_unique_shortest:
  assumes "shortest_length L + longest_length L < other_two_sum L"
  shows "first_shortest L = r \<longleftrightarrow> link_len L r = shortest_length L"
  using assms
  by (cases r)
    (auto simp add: first_shortest_def link_len_def shortest_length_def longest_length_def
      other_two_sum_def min_def max_def split: if_splits)

subsection \<open>Lengths near the overflow threshold\<close>

text \<open>Doubles near the overflow threshold, in units of \<open>2 ^ 1020\<close>.\<close>

lemma fl_huge:
  assumes "k \<in> \<int>" "\<bar>k\<bar> < 16"
  shows "fl (k * 2 ^ 1020) = Finite (k * 2 ^ 1020)"
proof (rule fl_exact [where j = 1020])
  show "k * 2 ^ 1020 / 2 powi 1020 \<in> \<int>" using assms(1) by simp
  have "\<bar>k * 2 ^ 1020\<bar> = \<bar>k\<bar> * 2 ^ 1020" by (simp add: abs_mult)
  also have "\<dots> < 16 * 2 ^ 1020" using assms(2) by simp
  also have "\<dots> = (2::real) ^ 1024" by simp
  finally show b: "\<bar>k * 2 ^ 1020\<bar> < 2 ^ 1024" .
  have "(2::real) ^ 1024 \<le> 2 ^ 1073" by (rule power_increasing) simp_all
  then show "\<bar>k * 2 ^ 1020\<bar> < 2 powi (1020 + 53)" using b by simp
  show "- 1074 \<le> (1020::int)" by simp
qed

lemma fl_huge_overflow:
  assumes "16 \<le> k"
  shows "fl (k * 2 ^ 1020) = PosInfinity"
proof (rule fl_overflow)
  have "(2::real) ^ 1024 = 16 * 2 ^ 1020" by simp
  also have "\<dots> \<le> k * 2 ^ 1020" using assms by simp
  finally show "2 ^ 1024 \<le> k * 2 ^ 1020" .
qed

text \<open>
  When the sum of the four lengths overflows, \<open>PQ\<close> is infinite: neither the Invalid
  nor the Change Point guard can hold, and the Grashof guard holds unless \<open>S + L\<close>
  overflows as well.
\<close>

lemma classifier_sum_overflows:
  assumes "totalSum (map_items L) = PosInfinity"
  shows "determineGrashof L =
     Inr \<lparr>type =
            (if num_add fl (Finite (shortest_length L)) (Finite (longest_length L))
                  = PosInfinity
             then DOUBLE_ROCKER_II
             else (case first_shortest L of
                     FRAME \<Rightarrow> DOUBLE_CRANK | INPUT \<Rightarrow> CRANK_ROCKER
                   | OUTPUT \<Rightarrow> CRANK_ROCKER | COUPLER \<Rightarrow> DOUBLE_ROCKER_I)),
          shortest = first_shortest L, longest = first_longest L\<rparr>"
proof -
  have pq: "PQ_of L = PosInfinity" by (simp add: PQ_of_def assms num_sub_def)
  have nn: "fl (shortest_length L + longest_length L) \<noteq> NaN" by (rule fl_not_NaN)
  show ?thesis
    unfolding determineGrashof_result pq
    using nn by (cases "fl (shortest_length L + longest_length L)") (simp_all add: num_sub_def)
qed

text \<open>The four lengths of the overflow examples, in units of \<open>u = 2 ^ 1020\<close>.\<close>

lemma huge_lengths:
  fixes a b c d :: real
  defines "u \<equiv> 2 ^ 1020"
  assumes ints: "a \<in> \<int>" "b \<in> \<int>" "c \<in> \<int>" "d \<in> \<int>"
    and pos: "0 < a" "0 < b" "0 < c" "0 < d"
    and part: "a < 16" and over: "16 \<le> a + b + c + d"
  shows "totalSum (map_items \<lparr>frame = a * u, input = b * u, coupler = c * u,
            output_len = d * u\<rparr>) = PosInfinity"
proof -
  have ex: "fl (k * u) = Finite (k * u)" if "k \<in> \<int>" "\<bar>k\<bar> < 16" for k
    using fl_huge [OF that] by (simp add: u_def)
  have ov: "fl (k * u) = PosInfinity" if "16 \<le> k" for k
    using fl_huge_overflow [OF that] by (simp add: u_def)
  have s1: "fl (a * u) = Finite (a * u)" using ex [of a] ints pos part by simp
  have d2: "(a + b) * u = a * u + b * u" and d3: "(a + b + c) * u = a * u + b * u + c * u"
    and d4: "(a + b + c + d) * u = a * u + b * u + c * u + d * u"
    by (simp_all add: distrib_right)
  show ?thesis
  proof (cases "16 \<le> a + b")
    case True
    then have "fl (a * u + b * u) = PosInfinity" using ov [of "a + b"] by (simp add: d2)
    then show ?thesis using s1 by (simp add: totalSum_map_items)
  next
    case False
    then have s2: "fl (a * u + b * u) = Finite (a * u + b * u)"
      using ex [of "a + b"] ints pos by (simp add: d2)
    show ?thesis
    proof (cases "16 \<le> a + b + c")
      case True
      then have "fl (a * u + b * u + c * u) = PosInfinity"
        using ov [of "a + b + c"] by (simp add: d3)
      then show ?thesis using s1 s2 by (simp add: totalSum_map_items)
    next
      case False
      then have s3: "fl (a * u + b * u + c * u) = Finite (a * u + b * u + c * u)"
        using ex [of "a + b + c"] ints pos by (simp add: d3)
      have "fl (a * u + b * u + c * u + d * u) = PosInfinity"
        using ov [of "a + b + c + d"] over by (simp add: d4)
      then show ?thesis using s1 s2 s3 by (simp add: totalSum_map_items)
    qed
  qed
qed

text \<open>
  Rounding alone, without overflow: for the lengths \<open>2 ^ 53, 1, 2 ^ 53, 2\<close> the exact
  quantities give \<open>S + L + 1 = P + Q\<close>, and the classifier computes \<open>S + L = PQ\<close>.
\<close>

lemma determineGrashof_rounding_example:
  "determineGrashof \<lparr>frame = 2 ^ 53, input = 1, coupler = 2 ^ 53, output_len = 2\<rparr>
     = Inr \<lparr>type = CHANGE_POINT, shortest = INPUT, longest = FRAME\<rparr> \<and>
   shortest_length \<lparr>frame = 2 ^ 53, input = 1, coupler = 2 ^ 53, output_len = 2\<rparr>
     + longest_length \<lparr>frame = 2 ^ 53, input = 1, coupler = 2 ^ 53, output_len = 2\<rparr> + 1
     = other_two_sum \<lparr>frame = 2 ^ 53, input = 1, coupler = 2 ^ 53, output_len = 2\<rparr>"
proof -
  have a1: "fl (2 ^ 53) = Finite (2 ^ 53)" using fl_exact [of "2 ^ 53" 1] by simp
  have a2: "fl (2 ^ 53 + 1) = Finite (2 ^ 53)"
    using fl_eval [of 53 "2 ^ 53 + 1"] by (simp add: rne_def Let_def)
  have a3: "fl (2 ^ 53 + 2 ^ 53) = Finite (2 ^ 54)" using fl_exact [of "2 ^ 54" 2] by simp
  have a4: "fl (2 ^ 54 + 2) = Finite (2 ^ 54)"
    using fl_eval [of 54 "2 ^ 54 + 2"] by (simp add: rne_def Let_def)
  have a5: "fl (2 ^ 54 - 1) = Finite (2 ^ 54)"
    using fl_eval [of 53 "2 ^ 54 - 1"] by (simp add: rne_def Let_def)
  have a6: "fl (2 ^ 54 - 2 ^ 53) = Finite (2 ^ 53)" using fl_exact [of "2 ^ 53" 1] by simp
  have z: "fl 0 = Finite 0" by (rule fl_zero)
  show ?thesis
    using a1 a2 a3 a4 a5 a6 z
    by (simp add: determineGrashof_result PQ_of_def totalSum_map_items shortest_length_def
        longest_length_def other_two_sum_def first_shortest_def first_longest_def threshold_def num_sub_def)
qed

subsection \<open>The classification\<close>

text \<open>
  Claim C4, as stated, fails. The lengths \<open>4, 4, 4, 7\<close> in units of
  \<open>2 ^ 1020\<close> pass the Invalid and the Change Point checks and have
  \<open>S + L > P + Q\<close>, yet the sum of the four overflows and the classifier returns
  Double-Crank, not Double-Rocker (Type II).
\<close>

theorem determineGrashof_overflow_double_crank:
  "\<not> longest_length
      \<lparr>frame = 4 * 2 ^ 1020, input = 4 * 2 ^ 1020, coupler = 4 * 2 ^ 1020,
        output_len = 7 * 2 ^ 1020\<rparr>
     > shortest_length
      \<lparr>frame = 4 * 2 ^ 1020, input = 4 * 2 ^ 1020, coupler = 4 * 2 ^ 1020,
        output_len = 7 * 2 ^ 1020\<rparr>
       + other_two_sum
      \<lparr>frame = 4 * 2 ^ 1020, input = 4 * 2 ^ 1020, coupler = 4 * 2 ^ 1020,
        output_len = 7 * 2 ^ 1020\<rparr> \<and>
   \<not> \<bar>(shortest_length
      \<lparr>frame = 4 * 2 ^ 1020, input = 4 * 2 ^ 1020, coupler = 4 * 2 ^ 1020,
        output_len = 7 * 2 ^ 1020\<rparr>
       + longest_length
      \<lparr>frame = 4 * 2 ^ 1020, input = 4 * 2 ^ 1020, coupler = 4 * 2 ^ 1020,
        output_len = 7 * 2 ^ 1020\<rparr>)
       - other_two_sum
      \<lparr>frame = 4 * 2 ^ 1020, input = 4 * 2 ^ 1020, coupler = 4 * 2 ^ 1020,
        output_len = 7 * 2 ^ 1020\<rparr>\<bar> < 0.01 \<and>
   shortest_length
      \<lparr>frame = 4 * 2 ^ 1020, input = 4 * 2 ^ 1020, coupler = 4 * 2 ^ 1020,
        output_len = 7 * 2 ^ 1020\<rparr>
     + longest_length
      \<lparr>frame = 4 * 2 ^ 1020, input = 4 * 2 ^ 1020, coupler = 4 * 2 ^ 1020,
        output_len = 7 * 2 ^ 1020\<rparr>
     > other_two_sum
      \<lparr>frame = 4 * 2 ^ 1020, input = 4 * 2 ^ 1020, coupler = 4 * 2 ^ 1020,
        output_len = 7 * 2 ^ 1020\<rparr> \<and>
   determineGrashof
      \<lparr>frame = 4 * 2 ^ 1020, input = 4 * 2 ^ 1020, coupler = 4 * 2 ^ 1020,
        output_len = 7 * 2 ^ 1020\<rparr>
     = Inr \<lparr>type = DOUBLE_CRANK, shortest = FRAME, longest = OUTPUT\<rparr>"
proof -
  have tot: "totalSum (map_items
      \<lparr>frame = 4 * 2 ^ 1020, input = 4 * 2 ^ 1020, coupler = 4 * 2 ^ 1020,
        output_len = 7 * 2 ^ 1020\<rparr>) = PosInfinity"
    by (rule huge_lengths) simp_all
  have sl: "fl (4 * 2 ^ 1020 + 7 * 2 ^ 1020) = Finite (11 * 2 ^ 1020)"
    using fl_huge [of 11] by simp
  have "determineGrashof
      \<lparr>frame = 4 * 2 ^ 1020, input = 4 * 2 ^ 1020, coupler = 4 * 2 ^ 1020,
        output_len = 7 * 2 ^ 1020\<rparr>
     = Inr \<lparr>type = DOUBLE_CRANK, shortest = FRAME, longest = OUTPUT\<rparr>"
    unfolding classifier_sum_overflows [OF tot]
    using sl
    by (simp add: shortest_length_def longest_length_def first_shortest_def
        first_longest_def)
  then show ?thesis
    by (simp add: shortest_length_def longest_length_def other_two_sum_def)
qed

text \<open>
  Claim C4, as amended. For lengths on a common dyadic grid that pass the Invalid and
  the Change Point checks: when \<open>S + L < P + Q\<close> the classifier returns Double-Crank
  if the frame holds the shortest length, Crank-Rocker if the input or the output holds
  it, and Double-Rocker (Type I) if the coupler holds it; when \<open>S + L > P + Q\<close> it
  returns Double-Rocker (Type II).
\<close>

theorem determineGrashof_grashof_cases:
  assumes "grid_lengths g L"
    and "\<not> longest_length L > shortest_length L + other_two_sum L"
    and "\<not> \<bar>(shortest_length L + longest_length L) - other_two_sum L\<bar> < 0.01"
  shows "\<exists>r. determineGrashof L = Inr r \<and>
         (shortest_length L + longest_length L < other_two_sum L \<and>
            frame L = shortest_length L
          \<longrightarrow> type r = DOUBLE_CRANK) \<and>
         (shortest_length L + longest_length L < other_two_sum L \<and>
            (input L = shortest_length L \<or> output_len L = shortest_length L)
          \<longrightarrow> type r = CRANK_ROCKER) \<and>
         (shortest_length L + longest_length L < other_two_sum L \<and>
            coupler L = shortest_length L
          \<longrightarrow> type r = DOUBLE_ROCKER_I) \<and>
         (shortest_length L + longest_length L > other_two_sum L
          \<longrightarrow> type r = DOUBLE_ROCKER_II)"
proof -
  define r where "r = \<lparr>type =
            (if shortest_length L + other_two_sum L < longest_length L then INVALID
             else if \<bar>shortest_length L + longest_length L - other_two_sum L\<bar> < 1 / 100
             then CHANGE_POINT
             else if shortest_length L + longest_length L < other_two_sum L
             then (case first_shortest L of
                     FRAME \<Rightarrow> DOUBLE_CRANK | INPUT \<Rightarrow> CRANK_ROCKER
                   | OUTPUT \<Rightarrow> CRANK_ROCKER | COUPLER \<Rightarrow> DOUBLE_ROCKER_I)
             else DOUBLE_ROCKER_II),
          shortest = first_shortest L, longest = first_longest L\<rparr>"
  have res: "determineGrashof L = Inr r"
    unfolding r_def by (rule determineGrashof_on_grid [OF assms(1)])
  have uniq: "first_shortest L = q \<longleftrightarrow> link_len L q = shortest_length L"
    if "shortest_length L + longest_length L < other_two_sum L" for q
    using that by (rule grashof_unique_shortest)
  have ty: "type r =
      (case first_shortest L of FRAME \<Rightarrow> DOUBLE_CRANK | INPUT \<Rightarrow> CRANK_ROCKER
       | OUTPUT \<Rightarrow> CRANK_ROCKER | COUPLER \<Rightarrow> DOUBLE_ROCKER_I)"
    if "shortest_length L + longest_length L < other_two_sum L"
    using assms(2,3) that by (simp add: r_def)
  have dc: "type r = DOUBLE_CRANK"
    if g: "shortest_length L + longest_length L < other_two_sum L"
      and s: "frame L = shortest_length L"
  proof -
    have "first_shortest L = FRAME" using uniq [OF g, of FRAME] s by (simp add: link_len_def)
    then show ?thesis using ty [OF g] by simp
  qed
  have cr: "type r = CRANK_ROCKER"
    if g: "shortest_length L + longest_length L < other_two_sum L"
      and s: "input L = shortest_length L \<or> output_len L = shortest_length L"
  proof -
    have "first_shortest L = INPUT \<or> first_shortest L = OUTPUT"
      using uniq [OF g, of INPUT] uniq [OF g, of OUTPUT] s by (auto simp add: link_len_def)
    then show ?thesis using ty [OF g] by auto
  qed
  have dr1: "type r = DOUBLE_ROCKER_I"
    if g: "shortest_length L + longest_length L < other_two_sum L"
      and s: "coupler L = shortest_length L"
  proof -
    have "first_shortest L = COUPLER"
      using uniq [OF g, of COUPLER] s by (simp add: link_len_def)
    then show ?thesis using ty [OF g] by simp
  qed
  have dr2: "type r = DOUBLE_ROCKER_II"
    if "shortest_length L + longest_length L > other_two_sum L"
    using assms(2,3) that by (simp add: r_def)
  show ?thesis using res dc cr dr1 dr2 by blast
qed

theorem determineGrashof_grashof_cases_witness:
  "(\<exists>r. determineGrashof \<lparr>frame = 50, input = 100, coupler = 120, output_len = 110\<rparr> = Inr r
        \<and> type r = DOUBLE_CRANK) \<and>
   (\<exists>r. determineGrashof \<lparr>frame = 200, input = 80, coupler = 180, output_len = 140\<rparr> = Inr r
        \<and> type r = CRANK_ROCKER) \<and>
   (\<exists>r. determineGrashof \<lparr>frame = 120, input = 100, coupler = 110, output_len = 50\<rparr> = Inr r
        \<and> type r = CRANK_ROCKER) \<and>
   (\<exists>r. determineGrashof \<lparr>frame = 100, input = 120, coupler = 50, output_len = 110\<rparr> = Inr r
        \<and> type r = DOUBLE_ROCKER_I) \<and>
   (\<exists>r. determineGrashof \<lparr>frame = 100, input = 200, coupler = 100, output_len = 100\<rparr> = Inr r
        \<and> type r = DOUBLE_ROCKER_II) \<and>
   (\<exists>r. determineGrashof \<lparr>frame = 100, input = 40 + 1 / 4, coupler = 70 + 1 / 2,
          output_len = 70\<rparr> = Inr r
        \<and> type r = CRANK_ROCKER)"
  using
    determineGrashof_grashof_cases
      [of 0 "\<lparr>frame = 50, input = 100, coupler = 120, output_len = 110\<rparr>"]
    determineGrashof_grashof_cases
      [of 0 "\<lparr>frame = 200, input = 80, coupler = 180, output_len = 140\<rparr>"]
    determineGrashof_grashof_cases
      [of 0 "\<lparr>frame = 120, input = 100, coupler = 110, output_len = 50\<rparr>"]
    determineGrashof_grashof_cases
      [of 0 "\<lparr>frame = 100, input = 120, coupler = 50, output_len = 110\<rparr>"]
    determineGrashof_grashof_cases
      [of 0 "\<lparr>frame = 100, input = 200, coupler = 100, output_len = 100\<rparr>"]
    determineGrashof_grashof_cases
      [of 3 "\<lparr>frame = 100, input = 40 + 1 / 4, coupler = 70 + 1 / 2, output_len = 70\<rparr>"]
  by (simp add: grid_lengths_def on_grid_def shortest_length_def longest_length_def
      other_two_sum_def)

text \<open>
  Claim C5. The spec's example \<open>{frame: 200, input: 80, coupler: 180, output: 140}\<close>
  as the spec states it: Crank-Rocker, shortest role input, longest role coupler. The
  statement fails: the frame, of length 200, is longer than the coupler.
\<close>

theorem determineGrashof_example_longest_coupler_refuted:
  "determineGrashof \<lparr>frame = 200, input = 80, coupler = 180, output_len = 140\<rparr>
     \<noteq> Inr \<lparr>type = CRANK_ROCKER, shortest = INPUT, longest = COUPLER\<rparr>"
  by (simp add: determineGrashof_result first_longest_def)

text \<open>
  Claim C5, as amended: for \<open>{frame: 200, input: 80, coupler: 180, output: 140}\<close>
  the classifier returns Crank-Rocker with shortest role input (length 80) and longest role
  frame (length 200).
\<close>

theorem determineGrashof_example_crank_rocker:
  "determineGrashof \<lparr>frame = 200, input = 80, coupler = 180, output_len = 140\<rparr> =
     Inr \<lparr>type = CRANK_ROCKER, shortest = INPUT, longest = FRAME\<rparr> \<and>
   link_len \<lparr>frame = 200, input = 80, coupler = 180, output_len = 140\<rparr> INPUT = 80 \<and>
   link_len \<lparr>frame = 200, input = 80, coupler = 180, output_len = 140\<rparr> FRAME = 200"
proof -
  have "grid_lengths 0 \<lparr>frame = 200, input = 80, coupler = 180, output_len = 140\<rparr>"
    by (simp add: grid_lengths_def on_grid_def)
  then show ?thesis
    by (simp add: determineGrashof_on_grid first_shortest_def first_longest_def
        shortest_length_def longest_length_def other_two_sum_def link_len_def)
qed

text \<open>
  Claim C6, as stated, fails. For the lengths \<open>12, 3, 3, 3\<close> in units of
  \<open>2 ^ 1020\<close> the longest exceeds the sum of the other three, yet the sum of the four
  overflows and the classifier returns Crank-Rocker, not Invalid.
\<close>

theorem determineGrashof_overflow_not_invalid:
  "longest_length
      \<lparr>frame = 12 * 2 ^ 1020, input = 3 * 2 ^ 1020, coupler = 3 * 2 ^ 1020,
        output_len = 3 * 2 ^ 1020\<rparr>
     > shortest_length
      \<lparr>frame = 12 * 2 ^ 1020, input = 3 * 2 ^ 1020, coupler = 3 * 2 ^ 1020,
        output_len = 3 * 2 ^ 1020\<rparr>
       + other_two_sum
      \<lparr>frame = 12 * 2 ^ 1020, input = 3 * 2 ^ 1020, coupler = 3 * 2 ^ 1020,
        output_len = 3 * 2 ^ 1020\<rparr> \<and>
   determineGrashof
      \<lparr>frame = 12 * 2 ^ 1020, input = 3 * 2 ^ 1020, coupler = 3 * 2 ^ 1020,
        output_len = 3 * 2 ^ 1020\<rparr>
     = Inr \<lparr>type = CRANK_ROCKER, shortest = INPUT, longest = FRAME\<rparr>"
proof -
  have tot: "totalSum (map_items
      \<lparr>frame = 12 * 2 ^ 1020, input = 3 * 2 ^ 1020, coupler = 3 * 2 ^ 1020,
        output_len = 3 * 2 ^ 1020\<rparr>) = PosInfinity"
    by (rule huge_lengths) simp_all
  have sl: "fl (3 * 2 ^ 1020 + 12 * 2 ^ 1020) = Finite (15 * 2 ^ 1020)"
    using fl_huge [of 15] by simp
  have "determineGrashof
      \<lparr>frame = 12 * 2 ^ 1020, input = 3 * 2 ^ 1020, coupler = 3 * 2 ^ 1020,
        output_len = 3 * 2 ^ 1020\<rparr>
     = Inr \<lparr>type = CRANK_ROCKER, shortest = INPUT, longest = FRAME\<rparr>"
    unfolding classifier_sum_overflows [OF tot]
    using sl
    by (simp add: shortest_length_def longest_length_def first_shortest_def
        first_longest_def)
  then show ?thesis
    by (simp add: shortest_length_def longest_length_def other_two_sum_def)
qed

text \<open>
  Claim C6, as amended. For lengths on a common dyadic grid, if
  \<open>L > S + (P + Q)\<close> the classifier returns Invalid; for all lengths it returns
  Invalid exactly when the comparison holds on the rounded \<open>PQ\<close>; and it returns
  Invalid for \<open>{frame: 50, input: 10, coupler: 10, output: 10}\<close>.
\<close>

theorem determineGrashof_invalid:
  "(grid_lengths g L \<and> longest_length L > shortest_length L + other_two_sum L
      \<longrightarrow> (\<exists>r. determineGrashof L = Inr r \<and> type r = INVALID)) \<and>
   (\<exists>r. determineGrashof L = Inr r \<and>
      (type r = INVALID \<longleftrightarrow>
         num_less (num_add fl (Finite (shortest_length L)) (PQ_of L))
           (Finite (longest_length L)))) \<and>
   determineGrashof \<lparr>frame = 50, input = 10, coupler = 10, output_len = 10\<rparr>
     = Inr \<lparr>type = INVALID, shortest = INPUT, longest = FRAME\<rparr>"
proof (intro conjI)
  show "grid_lengths g L \<and> longest_length L > shortest_length L + other_two_sum L
      \<longrightarrow> (\<exists>r. determineGrashof L = Inr r \<and> type r = INVALID)"
    using determineGrashof_on_grid [of g L] by simp
  show "\<exists>r. determineGrashof L = Inr r \<and>
      (type r = INVALID \<longleftrightarrow>
         num_less (num_add fl (Finite (shortest_length L)) (PQ_of L))
           (Finite (longest_length L)))"
    unfolding determineGrashof_result by (cases "first_shortest L") simp_all
  have "grid_lengths 0 \<lparr>frame = 50, input = 10, coupler = 10, output_len = 10\<rparr>"
    by (simp add: grid_lengths_def on_grid_def)
  then show "determineGrashof \<lparr>frame = 50, input = 10, coupler = 10, output_len = 10\<rparr>
     = Inr \<lparr>type = INVALID, shortest = INPUT, longest = FRAME\<rparr>"
    by (simp add: determineGrashof_on_grid first_shortest_def first_longest_def
        shortest_length_def longest_length_def other_two_sum_def)
qed

theorem determineGrashof_invalid_witness:
  "grid_lengths 1 \<lparr>frame = 30, input = 5 + 1 / 2, coupler = 8, output_len = 90\<rparr> \<and>
   longest_length \<lparr>frame = 30, input = 5 + 1 / 2, coupler = 8, output_len = 90\<rparr> >
     shortest_length \<lparr>frame = 30, input = 5 + 1 / 2, coupler = 8, output_len = 90\<rparr>
       + other_two_sum \<lparr>frame = 30, input = 5 + 1 / 2, coupler = 8, output_len = 90\<rparr> \<and>
   (\<exists>r. determineGrashof \<lparr>frame = 30, input = 5 + 1 / 2, coupler = 8, output_len = 90\<rparr>
          = Inr r \<and> type r = INVALID)"
  using determineGrashof_invalid
    [of 1 "\<lparr>frame = 30, input = 5 + 1 / 2, coupler = 8, output_len = 90\<rparr>"]
  by (simp add: grid_lengths_def on_grid_def shortest_length_def longest_length_def
      other_two_sum_def)

text \<open>
  Claim C7, as stated, fails. Four lengths \<open>2 ^ 1023\<close> pass the Invalid check
  and have \<open>S + L = P + Q\<close>, yet \<open>S + L\<close> and the sum of the four overflow,
  their difference is NaN, and the classifier returns Double-Rocker (Type II).
\<close>

theorem determineGrashof_overflow_not_change_point:
  "\<not> longest_length
      \<lparr>frame = 8 * 2 ^ 1020, input = 8 * 2 ^ 1020, coupler = 8 * 2 ^ 1020,
        output_len = 8 * 2 ^ 1020\<rparr>
     > shortest_length
      \<lparr>frame = 8 * 2 ^ 1020, input = 8 * 2 ^ 1020, coupler = 8 * 2 ^ 1020,
        output_len = 8 * 2 ^ 1020\<rparr>
       + other_two_sum
      \<lparr>frame = 8 * 2 ^ 1020, input = 8 * 2 ^ 1020, coupler = 8 * 2 ^ 1020,
        output_len = 8 * 2 ^ 1020\<rparr> \<and>
   \<bar>(shortest_length
      \<lparr>frame = 8 * 2 ^ 1020, input = 8 * 2 ^ 1020, coupler = 8 * 2 ^ 1020,
        output_len = 8 * 2 ^ 1020\<rparr>
       + longest_length
      \<lparr>frame = 8 * 2 ^ 1020, input = 8 * 2 ^ 1020, coupler = 8 * 2 ^ 1020,
        output_len = 8 * 2 ^ 1020\<rparr>)
       - other_two_sum
      \<lparr>frame = 8 * 2 ^ 1020, input = 8 * 2 ^ 1020, coupler = 8 * 2 ^ 1020,
        output_len = 8 * 2 ^ 1020\<rparr>\<bar> < 0.01 \<and>
   determineGrashof
      \<lparr>frame = 8 * 2 ^ 1020, input = 8 * 2 ^ 1020, coupler = 8 * 2 ^ 1020,
        output_len = 8 * 2 ^ 1020\<rparr>
     = Inr \<lparr>type = DOUBLE_ROCKER_II, shortest = FRAME, longest = FRAME\<rparr>"
proof -
  have tot: "totalSum (map_items
      \<lparr>frame = 8 * 2 ^ 1020, input = 8 * 2 ^ 1020, coupler = 8 * 2 ^ 1020,
        output_len = 8 * 2 ^ 1020\<rparr>) = PosInfinity"
    by (rule huge_lengths) simp_all
  have sl: "fl (8 * 2 ^ 1020 + 8 * 2 ^ 1020) = PosInfinity"
    using fl_huge_overflow [of 16] by simp
  have "determineGrashof
      \<lparr>frame = 8 * 2 ^ 1020, input = 8 * 2 ^ 1020, coupler = 8 * 2 ^ 1020,
        output_len = 8 * 2 ^ 1020\<rparr>
     = Inr \<lparr>type = DOUBLE_ROCKER_II, shortest = FRAME, longest = FRAME\<rparr>"
    unfolding classifier_sum_overflows [OF tot]
    using sl
    by (simp add: shortest_length_def longest_length_def first_shortest_def
        first_longest_def)
  then show ?thesis
    by (simp add: shortest_length_def longest_length_def other_two_sum_def)
qed

text \<open>
  Claim C7, as amended. For lengths on a common dyadic grid that pass the Invalid
  check, if \<open>\<bar>(S + L) - (P + Q)\<bar> < 0.01\<close> the classifier returns Change Point; for
  all lengths it returns Change Point exactly when the Invalid guard fails and the
  Change Point guard holds on the rounded values; and it returns Change Point for
  \<open>{frame: 100, input: 100, coupler: 100, output: 100}\<close>.
\<close>

theorem determineGrashof_change_point:
  "(grid_lengths g L \<and> \<not> longest_length L > shortest_length L + other_two_sum L \<and>
    \<bar>(shortest_length L + longest_length L) - other_two_sum L\<bar> < 0.01
      \<longrightarrow> (\<exists>r. determineGrashof L = Inr r \<and> type r = CHANGE_POINT)) \<and>
   (\<exists>r. determineGrashof L = Inr r \<and>
      (type r = CHANGE_POINT \<longleftrightarrow>
         \<not> num_less (num_add fl (Finite (shortest_length L)) (PQ_of L))
             (Finite (longest_length L)) \<and>
         num_less
           (Math_abs (num_sub fl
              (num_add fl (Finite (shortest_length L)) (Finite (longest_length L)))
              (PQ_of L)))
           (Finite threshold))) \<and>
   determineGrashof \<lparr>frame = 100, input = 100, coupler = 100, output_len = 100\<rparr>
     = Inr \<lparr>type = CHANGE_POINT, shortest = FRAME, longest = FRAME\<rparr>"
proof (intro conjI)
  show "grid_lengths g L \<and> \<not> longest_length L > shortest_length L + other_two_sum L \<and>
    \<bar>(shortest_length L + longest_length L) - other_two_sum L\<bar> < 0.01
      \<longrightarrow> (\<exists>r. determineGrashof L = Inr r \<and> type r = CHANGE_POINT)"
    using determineGrashof_on_grid [of g L] by simp
  show "\<exists>r. determineGrashof L = Inr r \<and>
      (type r = CHANGE_POINT \<longleftrightarrow>
         \<not> num_less (num_add fl (Finite (shortest_length L)) (PQ_of L))
             (Finite (longest_length L)) \<and>
         num_less
           (Math_abs (num_sub fl
              (num_add fl (Finite (shortest_length L)) (Finite (longest_length L)))
              (PQ_of L)))
           (Finite threshold))"
    unfolding determineGrashof_result by (cases "first_shortest L") simp_all
  have "grid_lengths 0 \<lparr>frame = 100, input = 100, coupler = 100, output_len = 100\<rparr>"
    by (simp add: grid_lengths_def on_grid_def)
  then show "determineGrashof \<lparr>frame = 100, input = 100, coupler = 100, output_len = 100\<rparr>
     = Inr \<lparr>type = CHANGE_POINT, shortest = FRAME, longest = FRAME\<rparr>"
    by (simp add: determineGrashof_on_grid first_shortest_def first_longest_def
        shortest_length_def longest_length_def other_two_sum_def)
qed

theorem determineGrashof_change_point_witness:
  "grid_lengths 10 \<lparr>frame = 100, input = 40, coupler = 70 + 5 / 1024, output_len = 70\<rparr> \<and>
   \<bar>(shortest_length \<lparr>frame = 100, input = 40, coupler = 70 + 5 / 1024, output_len = 70\<rparr>
      + longest_length \<lparr>frame = 100, input = 40, coupler = 70 + 5 / 1024, output_len = 70\<rparr>)
      - other_two_sum \<lparr>frame = 100, input = 40, coupler = 70 + 5 / 1024, output_len = 70\<rparr>\<bar>
     < 0.01 \<and>
   (\<exists>r. determineGrashof \<lparr>frame = 100, input = 40, coupler = 70 + 5 / 1024, output_len = 70\<rparr>
          = Inr r \<and> type r = CHANGE_POINT)"
  using determineGrashof_change_point
    [of 10 "\<lparr>frame = 100, input = 40, coupler = 70 + 5 / 1024, output_len = 70\<rparr>"]
  by (simp add: grid_lengths_def on_grid_def shortest_length_def longest_length_def
      other_two_sum_def)

text \<open>
  Claim C8. The shortest role returned is the first role, in the order frame, input,
  coupler, output, that holds the minimum length, and the longest role returned is the
  first one that holds the maximum length; when all four lengths are equal both are the
  frame.
\<close>

theorem determineGrashof_tie_break:
  "\<exists>r. determineGrashof L = Inr r \<and>
     find (\<lambda>q. link_len L q = shortest_length L) role_order = Some (shortest r) \<and>
     find (\<lambda>q. link_len L q = longest_length L) role_order = Some (longest r) \<and>
     (frame L = input L \<and> input L = coupler L \<and> coupler L = output_len L
        \<longrightarrow> shortest r = FRAME \<and> longest r = FRAME)"
proof -
  have "find (\<lambda>q. link_len L q = shortest_length L) role_order = Some (first_shortest L)"
    by (simp add: first_shortest_def role_order_def link_len_def shortest_length_def min_def)
  moreover have "find (\<lambda>q. link_len L q = longest_length L) role_order
      = Some (first_longest L)"
    by (simp add: first_longest_def role_order_def link_len_def longest_length_def max_def)
  moreover have "frame L = input L \<and> input L = coupler L \<and> coupler L = output_len L
        \<longrightarrow> first_shortest L = FRAME \<and> first_longest L = FRAME"
    by (simp add: first_shortest_def first_longest_def)
  ultimately show ?thesis by (simp add: determineGrashof_result)
qed

theorem determineGrashof_tie_break_witness:
  "(\<exists>r. determineGrashof \<lparr>frame = 7, input = 7, coupler = 7, output_len = 7\<rparr> = Inr r \<and>
        shortest r = FRAME \<and> longest r = FRAME) \<and>
   (\<exists>r. determineGrashof \<lparr>frame = 9, input = 4, coupler = 4, output_len = 9\<rparr> = Inr r \<and>
        shortest r = INPUT) \<and>
   (\<exists>r. determineGrashof \<lparr>frame = 3, input = 4, coupler = 9, output_len = 9\<rparr> = Inr r \<and>
        longest r = COUPLER)"
  using determineGrashof_tie_break [of "\<lparr>frame = 7, input = 7, coupler = 7, output_len = 7\<rparr>"]
    determineGrashof_tie_break [of "\<lparr>frame = 9, input = 4, coupler = 4, output_len = 9\<rparr>"]
    determineGrashof_tie_break [of "\<lparr>frame = 3, input = 4, coupler = 9, output_len = 9\<rparr>"]
  by (auto simp add: role_order_def link_len_def shortest_length_def longest_length_def)




section \<open>Properties of the position solver\<close>

subsection \<open>NaN and the operators\<close>

lemma num_add_NaN [simp]: "num_add r x NaN = NaN" "num_add r NaN y = NaN"
  by (cases x) simp_all

lemma num_sub_NaN [simp]: "num_sub r x NaN = NaN" "num_sub r NaN y = NaN"
  by (simp_all add: num_sub_def)

lemma num_mul_NaN [simp]: "num_mul r x NaN = NaN" "num_mul r NaN y = NaN"
  by (cases x) simp_all

lemma num_div_NaN [simp]: "num_div r x NaN = NaN" "num_div r NaN y = NaN"
  by (cases x) simp_all

lemma num_sub_Finite [simp]: "num_sub r (Finite x) (Finite y) = r (x - y)"
  by (simp add: num_sub_def)

lemma Math_NaN [simp]:
  "Math_cos A NaN = NaN" "Math_sin A NaN = NaN" "Math_sqrt A NaN = NaN"
  "Math_pow2 A NaN = NaN" "Math_acos A NaN = NaN"
  by (cases A; simp)+

lemma num_less_NaN [simp]: "\<not> num_less x NaN" "\<not> num_less NaN y"
  by (cases x) simp_all

lemma num_le_NaN [simp]: "\<not> num_le x NaN" "\<not> num_le NaN y"
  by (cases x) simp_all

lemma Math_cos_sin_range:
  "Math_cos A x = NaN \<or> (\<exists>c. Math_cos A x = Finite c)"
  "Math_sin A x = NaN \<or> (\<exists>c. Math_sin A x = Finite c)"
  by (cases A; cases x; simp)+

lemma num_add_eq_NaN_D: "num_add (rnd A) x y \<noteq> NaN \<Longrightarrow> x \<noteq> NaN \<and> y \<noteq> NaN"
  by (cases x; cases y) simp_all

lemma num_sub_Finite_eq_NaN_iff: "num_sub (rnd A) (Finite d) y = NaN \<longleftrightarrow> y = NaN"
  by (cases y) (simp_all add: num_sub_def rnd_not_NaN)

lemma Math_sqrt_not_NaN_D: "Math_sqrt A x \<noteq> NaN \<Longrightarrow> x \<noteq> NaN"
  by (cases x) simp_all

lemma Math_pow2_not_NaN_D: "Math_pow2 A x \<noteq> NaN \<Longrightarrow> x \<noteq> NaN"
  by (cases x) simp_all

lemma Math_cos_Finite_iff: "Math_cos A x \<noteq> NaN \<longleftrightarrow> (\<exists>v. x = Finite v)"
  by (cases A; cases x) simp_all

lemma Math_sin_Finite_iff: "Math_sin A x \<noteq> NaN \<longleftrightarrow> (\<exists>v. x = Finite v)"
  by (cases A; cases x) simp_all

lemma num_mul_Finite_NaN_iff: "num_mul (rnd A) (Finite a) y = NaN \<longleftrightarrow> y = NaN \<or> (a = 0 \<and> (y = PosInfinity \<or> y = NegInfinity))"
  by (cases y) (simp_all add: rnd_not_NaN)

text \<open>Comparisons of numbers that are not NaN.\<close>

lemma num_le_iff_not_less: "x \<noteq> NaN \<Longrightarrow> y \<noteq> NaN \<Longrightarrow> num_le x y \<longleftrightarrow> \<not> num_less y x"
  by (cases x; cases y) auto

lemma Math_abs_nonneg: "x \<noteq> NaN \<Longrightarrow> num_le (Finite 0) (Math_abs x)"
  by (cases x) simp_all

lemma Math_abs_not_NaN: "x \<noteq> NaN \<Longrightarrow> Math_abs x \<noteq> NaN"
  by (cases x) simp_all

lemma num_le_less_trans_zero:
  "num_le (Finite 0) x \<Longrightarrow> num_le x y \<Longrightarrow> y \<noteq> Finite 0 \<Longrightarrow> num_less (Finite 0) y"
  by (cases x; cases y) auto

subsection \<open>The joints in any arithmetic\<close>

lemma joints_A_B_D:
  "Ax (calculateJoints A L t) = Finite 0" "Ay (calculateJoints A L t) = Finite 0"
  "Bx (calculateJoints A L t) = Bx_of A L t" "By (calculateJoints A L t) = By_of A L t"
  "Dx (calculateJoints A L t) = Finite (frame L)" "Dy (calculateJoints A L t) = Finite 0"
  by (simp_all add: calculateJoints_def Let_def)

lemma isValid_iff:
  "isValid (calculateJoints A L t) \<longleftrightarrow>
     \<not> (num_less (num_add (rnd A) (Finite (coupler L)) (Finite (output_len L))) (distBD A L t)
        \<or> num_less (distBD A L t)
             (Math_abs (num_sub (rnd A) (Finite (coupler L)) (Finite (output_len L))))
        \<or> distBD A L t = Finite 0)"
  by (simp add: calculateJoints_def Let_def)

lemma joints_C_invalid:
  "\<not> isValid (calculateJoints A L t) \<Longrightarrow> Cx (calculateJoints A L t) = NaN"
  "\<not> isValid (calculateJoints A L t) \<Longrightarrow> Cy (calculateJoints A L t) = NaN"
  by (auto simp add: calculateJoints_def Let_def split: if_splits)

lemma joints_C_valid:
  assumes "isValid (calculateJoints A L t)"
  shows "Cx (calculateJoints A L t) =
      num_add (rnd A) (Finite (frame L))
        (num_mul (rnd A) (Finite (output_len L))
          (Math_cos A (num_sub (rnd A)
            (Math_atan2 A (num_sub (rnd A) (By_of A L t) (Finite 0))
               (num_sub (rnd A) (Bx_of A L t) (Finite (frame L))))
            (alpha_of A L t))))"
    and "Cy (calculateJoints A L t) =
      num_add (rnd A) (Finite 0)
        (num_mul (rnd A) (Finite (output_len L))
          (Math_sin A (num_sub (rnd A)
            (Math_atan2 A (num_sub (rnd A) (By_of A L t) (Finite 0))
               (num_sub (rnd A) (Bx_of A L t) (Finite (frame L))))
            (alpha_of A L t))))"
  using assms by (auto simp add: calculateJoints_def Let_def split: if_splits)

lemma valid_of_NaN_dist: "distBD A L t = NaN \<Longrightarrow> isValid (calculateJoints A L t)"
  by (simp add: isValid_iff)

lemma cosAlpha_of_NaN_dist: "distBD A L t = NaN \<Longrightarrow> cosAlpha_of A L t = NaN"
  by (simp add: cosAlpha_of_def Let_def)

lemma alpha_of_NaN_cos: "cosAlpha_of A L t = NaN \<Longrightarrow> alpha_of A L t = NaN"
  by (simp add: alpha_of_def)

lemma C_of_NaN_alpha:
  assumes "isValid (calculateJoints A L t)" "alpha_of A L t = NaN"
  shows "Cx (calculateJoints A L t) = NaN" "Cy (calculateJoints A L t) = NaN"
  by (simp_all add: joints_C_valid [OF assms(1)] assms(2))

lemma B_of_theta:
  "Bx_of A L t \<noteq> NaN \<longleftrightarrow> (\<exists>v. theta_of A t = Finite v)"
  "By_of A L t \<noteq> NaN \<longleftrightarrow> (\<exists>v. theta_of A t = Finite v)"
proof -
  show "Bx_of A L t \<noteq> NaN \<longleftrightarrow> (\<exists>v. theta_of A t = Finite v)"
    using Math_cos_Finite_iff [of A "theta_of A t"] Math_cos_sin_range(1) [of A "theta_of A t"]
    by (auto simp add: Bx_of_def rnd_not_NaN)
  show "By_of A L t \<noteq> NaN \<longleftrightarrow> (\<exists>v. theta_of A t = Finite v)"
    using Math_sin_Finite_iff [of A "theta_of A t"] Math_cos_sin_range(2) [of A "theta_of A t"]
    by (auto simp add: By_of_def rnd_not_NaN)
qed

lemma dist_NaN_of_B:
  "Bx_of A L t = NaN \<Longrightarrow> distBD A L t = NaN"
  "By_of A L t = NaN \<Longrightarrow> distBD A L t = NaN"
  by (simp_all add: distBD_def)

lemma B_of_dist:
  assumes "distBD A L t \<noteq> NaN"
  shows "Bx_of A L t \<noteq> NaN" "By_of A L t \<noteq> NaN"
  using assms dist_NaN_of_B [of A L t] by auto

subsection \<open>The direction of BD and the law of cosines\<close>








subsection \<open>The solver in exact arithmetic\<close>

lemma true_distBD_alt:
  "true_distBD L t = sqrt ((frame L - true_Bx L t)\<^sup>2 + (0 - true_By L t)\<^sup>2)"
  by (simp add: true_distBD_def true_Bx_def true_By_def)

lemma true_distBD_nonneg: "0 \<le> true_distBD L t"
  by (simp add: true_distBD_def)


lemma exact_B:
  "theta_of Exact t = Finite (t * pi / 180)"
  "Bx_of Exact L t = Finite (true_Bx L t)"
  "By_of Exact L t = Finite (true_By L t)"
  by (simp_all add: theta_of_def Bx_of_def By_of_def true_Bx_def true_By_def)

lemma exact_distBD: "distBD Exact L t = Finite (true_distBD L t)"
proof -
  have "\<not> (frame L - true_Bx L t)\<^sup>2 + (true_By L t)\<^sup>2 < 0"
    by (simp add: not_less)
  then show ?thesis by (simp add: distBD_def exact_B true_distBD_alt)
qed

lemma exact_isValid_iff:
  "isValid (calculateJoints Exact L t) \<longleftrightarrow>
     \<bar>coupler L - output_len L\<bar> \<le> true_distBD L t \<and>
     true_distBD L t \<le> coupler L + output_len L \<and> 0 < true_distBD L t"
  using true_distBD_nonneg [of L t] by (auto simp add: isValid_iff exact_distBD)







subsection \<open>The angle that overflows\<close>

lemma theta_overflow:
  assumes "2 ^ 1024 \<le> t * (884279719003555 / 2 ^ 48)"
  shows "theta_of (Double M) t = PosInfinity"
  using fl_overflow [OF assms] by (simp add: theta_of_def)

lemma theta_8_overflow: "theta_of (Double M) (8 * 2 ^ 1020) = PosInfinity"
  by (rule theta_overflow) simp

lemma not_finite_theta:
  assumes "\<not> (\<exists>v. theta_of A t = Finite v)"
  shows "Bx_of A L t = NaN" "By_of A L t = NaN" "distBD A L t = NaN"
    "isValid (calculateJoints A L t)" "alpha_of A L t = NaN"
    "Cx (calculateJoints A L t) = NaN" "Cy (calculateJoints A L t) = NaN"
proof -
  show b: "Bx_of A L t = NaN" using B_of_theta(1) [of A L t] assms by blast
  show "By_of A L t = NaN" using B_of_theta(2) [of A L t] assms by blast
  show d: "distBD A L t = NaN" using b by (rule dist_NaN_of_B)
  show v: "isValid (calculateJoints A L t)" using d by (rule valid_of_NaN_dist)
  show a: "alpha_of A L t = NaN" using d by (simp add: cosAlpha_of_NaN_dist alpha_of_NaN_cos)
  show "Cx (calculateJoints A L t) = NaN" "Cy (calculateJoints A L t) = NaN"
    using C_of_NaN_alpha [OF v a] by simp_all
qed

subsection \<open>The clamp\<close>






subsection \<open>The reference library at angle zero\<close>

lemma round_real_int:
  assumes "x \<in> \<int>" "\<bar>x\<bar> < 2 ^ 53"
  shows "round_real x = x"
  using round_real_exact [of x 0] assms by simp

lemma reference_lib_simps:
  "lib_cos reference_lib x = round_real (cos x)"
  "lib_sin reference_lib x = round_real (sin x)"
  "lib_sqrt reference_lib x = round_real (sqrt x)"
  "lib_pow2 reference_lib x = fl (x * x)"
  "lib_acos reference_lib x = round_real (arccos x)"
  "lib_atan2 reference_lib y x = round_real (atan2_exact y x)"
  "lib_atan2_inf reference_lib v w = round_real (atan2_limit v w)"
  by (simp_all add: reference_lib_def)

lemma reference_theta_zero: "theta_of (Double M) 0 = Finite 0"
  by (simp add: theta_of_def fl_zero)

lemma reference_B_zero:
  assumes "input L \<in> \<int>" "\<bar>input L\<bar> < 2 ^ 53"
  shows "Bx_of (Double reference_lib) L 0 = Finite (input L)"
    "By_of (Double reference_lib) L 0 = Finite 0"
  using assms
  by (simp_all add: Bx_of_def By_of_def reference_theta_zero reference_lib_simps
      round_real_int fl_int fl_zero)

lemma reference_distBD_zero:
  assumes "frame L \<in> \<int>" "input L \<in> \<int>" "\<bar>input L\<bar> < 2 ^ 53"
    and "\<bar>frame L - input L\<bar> < 2 ^ 26"
  shows "distBD (Double reference_lib) L 0 = Finite \<bar>frame L - input L\<bar>"
proof -
  define x where "x = frame L - input L"
  have xi: "x \<in> \<int>" using assms(1,2) by (simp add: x_def)
  have xb: "\<bar>x\<bar> < 2 ^ 26" using assms(4) by (simp add: x_def)
  have "\<bar>x\<bar> < 2 ^ 53" using xb power_strict_increasing [of 26 53 "2::real"] by linarith
  then have f1: "fl x = Finite x" using xi by (simp add: fl_int)
  have "\<bar>x\<bar> * \<bar>x\<bar> < 2 ^ 26 * 2 ^ 26"
    using xb by (intro mult_strict_mono) simp_all
  then have "\<bar>x * x\<bar> < 2 ^ 52" by (simp add: abs_mult)
  then have sq: "\<bar>x * x\<bar> < 2 ^ 53"
    using power_strict_increasing [of 52 53 "2::real"] by linarith
  have f2: "fl (x * x) = Finite (x * x)" using xi sq by (simp add: fl_int)
  have "\<bar>x\<bar> \<in> \<int>" using xi by simp
  then have f3: "round_real \<bar>x\<bar> = \<bar>x\<bar>"
    using \<open>\<bar>x\<bar> < 2 ^ 53\<close> by (simp add: round_real_int)
  have s: "sqrt (x * x) = \<bar>x\<bar>" by simp
  have "distBD (Double reference_lib) L 0 = Finite (round_real (sqrt (x * x)))"
    using f1 f2
    by (simp add: distBD_def reference_B_zero [OF assms(2,3)] fl_zero x_def [symmetric]
        reference_lib_simps not_less)
  then have "distBD (Double reference_lib) L 0 = Finite \<bar>x\<bar>" by (simp only: s f3)
  then show ?thesis by (simp only: x_def)
qed

subsection \<open>An input at which the clamp acts\<close>

text \<open>
  At \<open>frame = 2048\<close>, \<open>input = 1024\<close>, \<open>coupler = 1000\<close>,
  \<open>output = 24 - 2 ^ - 44\<close> and angle \<open>0\<close> the rounded sum \<open>coupler + output\<close> is
  \<open>1024 = distBD\<close>, the frame is valid, and the quotient \<open>cosAlpha\<close> comes out as
  \<open>1 + 11 * 2 ^ - 52\<close>: without the clamp \<open>Math.acos\<close> would return NaN.
\<close>

lemma clamp_example_cosAlpha:
  "distBD (Double reference_lib)
      \<lparr>frame = 2048, input = 1024, coupler = 1000, output_len = 24 - 1 / 2 ^ 44\<rparr> 0
     = Finite 1024"
  "isValid (calculateJoints (Double reference_lib)
      \<lparr>frame = 2048, input = 1024, coupler = 1000, output_len = 24 - 1 / 2 ^ 44\<rparr> 0)"
  "cosAlpha_of (Double reference_lib)
      \<lparr>frame = 2048, input = 1024, coupler = 1000, output_len = 24 - 1 / 2 ^ 44\<rparr> 0
     = Finite (1 + 11 / 2 ^ 52)"
proof -
  let ?L = "\<lparr>frame = 2048, input = 1024, coupler = 1000, output_len = 24 - 1 / 2 ^ 44\<rparr>"
  show d: "distBD (Double reference_lib) ?L 0 = Finite 1024"
    using reference_distBD_zero [of ?L] by simp
  show "isValid (calculateJoints (Double reference_lib) ?L 0)"
    using fl_ex_sum fl_ex_diff d by (simp add: isValid_iff)
  have i1: "fl (1024 * 1024) = Finite 1048576" by (simp add: fl_int)
  have i2: "fl (1000 * 1000) = Finite 1000000" by (simp add: fl_int)
  have i3: "fl (1049152 - 1000000) = Finite 49152" by (simp add: fl_int)
  show "cosAlpha_of (Double reference_lib) ?L 0 = Finite (1 + 11 / 2 ^ 52)"
    using fl_ex_square fl_ex_sum_squares fl_ex_quotient fl_ex_double fl_ex_product i1 i2 i3 d by (simp add: cosAlpha_of_def Let_def)
qed

lemma clamp_is_needed:
  "Math_acos (Double reference_lib)
     (cosAlpha_of (Double reference_lib)
        \<lparr>frame = 2048, input = 1024, coupler = 1000, output_len = 24 - 1 / 2 ^ 44\<rparr> 0) = NaN \<and>
   alpha_of (Double reference_lib)
      \<lparr>frame = 2048, input = 1024, coupler = 1000, output_len = 24 - 1 / 2 ^ 44\<rparr> 0 = Finite 0"
  unfolding alpha_of_def clamp_example_cosAlpha(3) by simp

subsection \<open>The joints\<close>

text \<open>
  Claim C1, as stated, fails. At the angle \<open>2 ^ 1023\<close> degrees the product with
  \<open>Math.PI\<close> overflows, the joint B and \<open>distBD\<close> are NaN, every comparison of the
  guard is false, and the solver reports \<open>isValid = true\<close>; for the lengths
  \<open>50, 10, 10, 10\<close> the distance of B from D exceeds \<open>coupler + output\<close> at
  every angle.
\<close>

theorem calculateJoints_validity_refuted:
  "isValid (calculateJoints (Double reference_lib)
      \<lparr>frame = 50, input = 10, coupler = 10, output_len = 10\<rparr> (8 * 2 ^ 1020)) \<and>
   distBD (Double reference_lib)
      \<lparr>frame = 50, input = 10, coupler = 10, output_len = 10\<rparr> (8 * 2 ^ 1020) = NaN \<and>
   \<not> true_distBD \<lparr>frame = 50, input = 10, coupler = 10, output_len = 10\<rparr> (8 * 2 ^ 1020)
       \<le> 10 + 10"
proof -
  have nf: "\<not> (\<exists>v. theta_of (Double reference_lib) (8 * 2 ^ 1020) = Finite v)"
    unfolding theta_8_overflow by simp
  have "40 \<le> 50 - 10 * cos (8 * 2 ^ 1020 * pi / 180)"
    using cos_le_one [of "8 * 2 ^ 1020 * pi / 180"] by linarith
  moreover have "50 - 10 * cos (8 * 2 ^ 1020 * pi / 180)
      \<le> true_distBD \<lparr>frame = 50, input = 10, coupler = 10, output_len = 10\<rparr> (8 * 2 ^ 1020)"
    unfolding true_distBD_def by (simp only: LinkLengths.simps) (rule real_sqrt_sum_squares_ge1)
  ultimately have "\<not> true_distBD \<lparr>frame = 50, input = 10, coupler = 10, output_len = 10\<rparr>
      (8 * 2 ^ 1020) \<le> 10 + 10"
    by linarith
  then show ?thesis using not_finite_theta(3,4) [OF nf] by blast
qed

text \<open>
  Claim C1, as amended. In either arithmetic: when \<open>distBD\<close>, as computed, is not
  NaN the solver reports \<open>isValid = true\<close> exactly when
  \<open>\<bar>coupler - output\<bar> \<le> distBD \<le> coupler + output\<close> and \<open>distBD > 0\<close>, the sum and
  the difference being the computed ones; when \<open>distBD\<close> is NaN it reports
  \<open>isValid = true\<close> and both coordinates of C are NaN; when it reports
  \<open>isValid = false\<close> the joints A and D hold their coordinates, B holds the computed
  ones, neither NaN, and both coordinates of C are NaN. In exact arithmetic \<open>distBD\<close>
  is the distance between \<open>B = (input cos \<theta>, input sin \<theta>)\<close> and \<open>D = (frame, 0)\<close>.
\<close>

theorem calculateJoints_validity:
  "(distBD A L t \<noteq> NaN \<longrightarrow>
      (isValid (calculateJoints A L t) \<longleftrightarrow>
         num_le (Math_abs (num_sub (rnd A) (Finite (coupler L)) (Finite (output_len L))))
           (distBD A L t) \<and>
         num_le (distBD A L t)
           (num_add (rnd A) (Finite (coupler L)) (Finite (output_len L))) \<and>
         num_less (Finite 0) (distBD A L t))) \<and>
   (distBD A L t = NaN \<longrightarrow>
      isValid (calculateJoints A L t) \<and>
      Cx (calculateJoints A L t) = NaN \<and> Cy (calculateJoints A L t) = NaN) \<and>
   (\<not> isValid (calculateJoints A L t) \<longrightarrow>
      Ax (calculateJoints A L t) = Finite 0 \<and> Ay (calculateJoints A L t) = Finite 0 \<and>
      Bx (calculateJoints A L t) = Bx_of A L t \<and> By (calculateJoints A L t) = By_of A L t \<and>
      Bx_of A L t \<noteq> NaN \<and> By_of A L t \<noteq> NaN \<and>
      Dx (calculateJoints A L t) = Finite (frame L) \<and> Dy (calculateJoints A L t) = Finite 0 \<and>
      Cx (calculateJoints A L t) = NaN \<and> Cy (calculateJoints A L t) = NaN) \<and>
   distBD Exact L t = Finite (true_distBD L t) \<and>
   (isValid (calculateJoints Exact L t) \<longleftrightarrow>
      \<bar>coupler L - output_len L\<bar> \<le> true_distBD L t \<and>
      true_distBD L t \<le> coupler L + output_len L \<and> 0 < true_distBD L t)"
proof (intro conjI impI)
  let ?s = "num_add (rnd A) (Finite (coupler L)) (Finite (output_len L))"
  let ?d = "Math_abs (num_sub (rnd A) (Finite (coupler L)) (Finite (output_len L)))"
  have s: "?s \<noteq> NaN" by (simp add: rnd_not_NaN)
  have d: "?d \<noteq> NaN" by (simp add: rnd_not_NaN Math_abs_not_NaN)
  have d0: "num_le (Finite 0) ?d" by (simp add: rnd_not_NaN Math_abs_nonneg)
  show "isValid (calculateJoints A L t) \<longleftrightarrow>
      num_le ?d (distBD A L t) \<and> num_le (distBD A L t) ?s \<and> num_less (Finite 0) (distBD A L t)"
    if n: "distBD A L t \<noteq> NaN"
  proof
    assume v: "isValid (calculateJoints A L t)"
    then have a: "num_le ?d (distBD A L t)" and b: "num_le (distBD A L t) ?s"
      and c: "distBD A L t \<noteq> Finite 0"
      using n s d by (simp_all add: isValid_iff num_le_iff_not_less)
    show "num_le ?d (distBD A L t) \<and> num_le (distBD A L t) ?s
        \<and> num_less (Finite 0) (distBD A L t)"
      using a b num_le_less_trans_zero [OF d0 a c] by simp
  next
    assume "num_le ?d (distBD A L t) \<and> num_le (distBD A L t) ?s
        \<and> num_less (Finite 0) (distBD A L t)"
    then show "isValid (calculateJoints A L t)"
      using n s d by (auto simp add: isValid_iff num_le_iff_not_less)
  qed
  show "isValid (calculateJoints A L t)" if "distBD A L t = NaN"
    using that by (rule valid_of_NaN_dist)
  show "Cx (calculateJoints A L t) = NaN" if "distBD A L t = NaN"
    using C_of_NaN_alpha(1) [OF valid_of_NaN_dist [OF that]] that
    by (simp add: cosAlpha_of_NaN_dist alpha_of_NaN_cos)
  show "Cy (calculateJoints A L t) = NaN" if "distBD A L t = NaN"
    using C_of_NaN_alpha(2) [OF valid_of_NaN_dist [OF that]] that
    by (simp add: cosAlpha_of_NaN_dist alpha_of_NaN_cos)
  show "Ax (calculateJoints A L t) = Finite 0" "Ay (calculateJoints A L t) = Finite 0"
    "Bx (calculateJoints A L t) = Bx_of A L t" "By (calculateJoints A L t) = By_of A L t"
    "Dx (calculateJoints A L t) = Finite (frame L)" "Dy (calculateJoints A L t) = Finite 0"
    by (simp_all add: joints_A_B_D)
  show "Bx_of A L t \<noteq> NaN" "By_of A L t \<noteq> NaN" if "\<not> isValid (calculateJoints A L t)"
    using that valid_of_NaN_dist [of A L t] B_of_dist [of A L t] by blast+
  show "Cx (calculateJoints A L t) = NaN" "Cy (calculateJoints A L t) = NaN"
    if "\<not> isValid (calculateJoints A L t)"
    using that by (simp_all add: joints_C_invalid)
  show "distBD Exact L t = Finite (true_distBD L t)" by (rule exact_distBD)
  show "isValid (calculateJoints Exact L t) \<longleftrightarrow>
      \<bar>coupler L - output_len L\<bar> \<le> true_distBD L t \<and>
      true_distBD L t \<le> coupler L + output_len L \<and> 0 < true_distBD L t"
    by (rule exact_isValid_iff)
qed

theorem calculateJoints_validity_witness:
  "distBD (Double reference_lib)
      \<lparr>frame = 50, input = 10, coupler = 10, output_len = 10\<rparr> 0 = Finite 40 \<and>
   \<not> isValid (calculateJoints (Double reference_lib)
      \<lparr>frame = 50, input = 10, coupler = 10, output_len = 10\<rparr> 0) \<and>
   Bx (calculateJoints (Double reference_lib)
      \<lparr>frame = 50, input = 10, coupler = 10, output_len = 10\<rparr> 0) \<noteq> NaN \<and>
   Cx (calculateJoints (Double reference_lib)
      \<lparr>frame = 50, input = 10, coupler = 10, output_len = 10\<rparr> 0) = NaN \<and>
   distBD (Double reference_lib)
      \<lparr>frame = 50, input = 10, coupler = 10, output_len = 10\<rparr> (8 * 2 ^ 1020) = NaN \<and>
   isValid (calculateJoints (Double reference_lib)
      \<lparr>frame = 50, input = 10, coupler = 10, output_len = 10\<rparr> (8 * 2 ^ 1020)) \<and>
   Cx (calculateJoints (Double reference_lib)
      \<lparr>frame = 50, input = 10, coupler = 10, output_len = 10\<rparr> (8 * 2 ^ 1020)) = NaN"
proof -
  let ?L = "\<lparr>frame = 50, input = 10, coupler = 10, output_len = 10\<rparr>"
  have d: "distBD (Double reference_lib) ?L 0 = Finite 40"
    using reference_distBD_zero [of ?L] by simp
  have f: "fl 20 = Finite 20" by (simp add: fl_int)
  have n: "\<not> isValid (calculateJoints (Double reference_lib) ?L 0)"
    using d f by (simp add: isValid_iff)
  have nf: "\<not> (\<exists>v. theta_of (Double reference_lib) (8 * 2 ^ 1020) = Finite v)"
    unfolding theta_8_overflow by simp
  have d2: "distBD (Double reference_lib) ?L (8 * 2 ^ 1020) = NaN"
    using not_finite_theta(3) [OF nf] .
  show ?thesis
    using d n d2 calculateJoints_validity [of "Double reference_lib" ?L 0]
      calculateJoints_validity [of "Double reference_lib" ?L "8 * 2 ^ 1020"]
    by (simp only:) simp
qed










end
